theory Spec2Isabelle
  imports Complex_Main "HOL-Library.AList"
begin

section \<open>The model objects consumed by the breakdown methods\<close>

text \<open>
  The methods of \<^verbatim>\<open>BDFMethods\<close> (bdf/bdf_methods.py) read finished objects of the
  model: properties, elements and point masses. Their accessors are defined outside
  these sources, so each object is the record of what its accessors return. An accessor
  that the object does not have raises \<^verbatim>\<open>AttributeError\<close> in Python; here its field
  is \<open>None\<close>. Quantities are Python floats; they are modelled as exact reals.
\<close>

record property =
  prop_type :: string
  prop_t :: "real option"
  prop_nsm :: "real option"
  prop_Rho :: "real option"
  prop_Thickness :: "real option"
  prop_Area :: "real option"

record element =
  elem_type :: string
  elem_Area :: "real option"
  elem_Length :: "real option"
  elem_Volume :: "real option"
  elem_Mass :: "real option"

type_synonym vec3 = "real \<times> real \<times> real"

record node =
  get_position :: "vec3 option"

text \<open>
  \<^verbatim>\<open>self.properties\<close>, \<^verbatim>\<open>self.elements\<close> and \<^verbatim>\<open>self.nodes\<close> are dictionaries that are
  only indexed; \<^verbatim>\<open>self.masses\<close> is iterated, so it is kept in iteration order.
\<close>

record bdf =
  properties :: "int \<rightharpoonup> property"
  elements :: "int \<rightharpoonup> element"
  masses :: "(int \<times> element) list"
  nodes :: "int \<rightharpoonup> node"

datatype error =
  KeyError
  | AttributeError
  | NotImplementedError property
  | RuntimeError string

datatype log_entry =
  SkippingVolume "string \<times> string"
  | SkippingMass "string \<times> string"

section \<open>Exceptions and loops\<close>

definition bind_e :: "error + 'a \<Rightarrow> ('a \<Rightarrow> error + 'b) \<Rightarrow> error + 'b" where
  "bind_e r f = (case r of Inl e \<Rightarrow> Inl e | Inr v \<Rightarrow> f v)"

text \<open>\<^verbatim>\<open>d[k]\<close> on a dictionary: a missing key raises \<^verbatim>\<open>KeyError\<close>.\<close>

definition getitem :: "('k \<rightharpoonup> 'v) \<Rightarrow> 'k \<Rightarrow> error + 'v" where
  "getitem d k = (case d k of None \<Rightarrow> Inl KeyError | Some v \<Rightarrow> Inr v)"

text \<open>An attribute or method of an object: a missing one raises \<^verbatim>\<open>AttributeError\<close>.\<close>

definition attr :: "'a option \<Rightarrow> error + 'a" where
  "attr a = (case a of None \<Rightarrow> Inl AttributeError | Some v \<Rightarrow> Inr v)"

text \<open>A \<^verbatim>\<open>for\<close> loop over a list whose body may raise: the first exception ends it.\<close>

fun for_each :: "('x \<Rightarrow> 's \<Rightarrow> error + 's) \<Rightarrow> 'x list \<Rightarrow> 's \<Rightarrow> error + 's" where
  "for_each body [] s = Inr s"
| "for_each body (x # xs) s =
     (case body x s of Inl e \<Rightarrow> Inl e | Inr s' \<Rightarrow> for_each body xs s')"

text \<open>
  The same loop for a body that also writes to \<^verbatim>\<open>self.log\<close>: the entries written so
  far are threaded through and survive an exception.
\<close>

fun for_each_log ::
  "('x \<Rightarrow> 's \<Rightarrow> log_entry list \<Rightarrow> (error + 's) \<times> log_entry list) \<Rightarrow>
     'x list \<Rightarrow> 's \<Rightarrow> log_entry list \<Rightarrow> (error + 's) \<times> log_entry list" where
  "for_each_log body [] s lg = (Inr s, lg)"
| "for_each_log body (x # xs) s lg =
     (case body x s lg of
        (Inl e, lg') \<Rightarrow> (Inl e, lg')
      | (Inr s', lg') \<Rightarrow> for_each_log body xs s' lg')"

text \<open>
  A dictionary that the code builds and returns is the list of its items in insertion
  order: \<^verbatim>\<open>d[k] = v\<close> overwrites the value of a key already there and appends a new
  key at the end, \<^verbatim>\<open>len(d) == 0\<close> is \<open>d = []\<close>, and \<open>map_of d\<close> looks a key up.
\<close>

definition setitem :: "'k \<Rightarrow> 'v \<Rightarrow> ('k \<times> 'v) list \<Rightarrow> ('k \<times> 'v) list" where
  "setitem k v d = AList.update k v d"

text \<open>Python's \<^verbatim>\<open>sum(xs)\<close>: a left fold from \<open>0\<close>.\<close>

definition py_sum :: "real list \<Rightarrow> real" where
  "py_sum xs = foldl (+) 0 xs"

section \<open>The property categories\<close>

text \<open>
  The literal lists of the \<^verbatim>\<open>if/elif\<close> chains, named. \<open>shell_props\<close> is the list of
  the first branch of \<^verbatim>\<open>get_area_breakdown\<close>; \<open>line_props\<close>, \<open>solid_props\<close> and
  \<open>solid_elems\<close> are written the same way in each method that uses them.
\<close>

definition shell_props :: "string list" where
  "shell_props = [''PSHELL'', ''PCOMP'', ''PSHEAR'', ''PCOMPG'']"

definition line_props :: "string list" where
  "line_props = [''PBAR'', ''PBARL'', ''PBEAM'', ''PBEAML'', ''PROD'', ''PTUBE'']"

definition solid_props :: "string list" where
  "solid_props = [''PSOLID'', ''PCOMPS'', ''PLSOLID'']"

definition solid_elems :: "string list" where
  "solid_elems = [''CTETRA'', ''CPENTA'', ''CHEXA'']"

text \<open>\<^verbatim>\<open>skip_props\<close> of \<^verbatim>\<open>get_area_breakdown\<close>.\<close>

definition skip_props :: "string list" where
  "skip_props =
     [''PSOLID'', ''PLPLANE'', ''PPLANE'', ''PELAS'',
      ''PDAMP'', ''PBUSH'', ''PBUSH1D'', ''PBUSH2D'',
      ''PELAST'', ''PDAMPT'', ''PBUSHT'', ''PDAMP5'',
      ''PFAST'', ''PGAP'', ''PRAC2D'', ''PRAC3D'', ''PCONEAX'', ''PLSOLID'',
      ''PCOMPS'', ''PVISC'', ''PBCOMP'', ''PBEND'']"

text \<open>\<^verbatim>\<open>no_volume\<close> of \<^verbatim>\<open>get_volume_breakdown\<close>.\<close>

definition no_volume :: "string list" where
  "no_volume =
     [''PLPLANE'', ''PPLANE'', ''PELAS'',
      ''PDAMP'', ''PBUSH'', ''PBUSH1D'', ''PBUSH2D'',
      ''PELAST'', ''PDAMPT'', ''PBUSHT'', ''PDAMP5'',
      ''PFAST'', ''PGAP'', ''PRAC2D'', ''PRAC3D'', ''PCONEAX'',
      ''PVISC'', ''PBCOMP'', ''PBEND'']"

text \<open>\<^verbatim>\<open>properties_to_skip\<close> of \<^verbatim>\<open>get_mass_breakdown\<close>.\<close>

definition properties_to_skip :: "string list" where
  "properties_to_skip =
     [''PLPLANE'', ''PPLANE'', ''PELAS'',
      ''PDAMP'', ''PBUSH'', ''PBUSH1D'', ''PBUSH2D'',
      ''PELAST'', ''PDAMPT'', ''PBUSHT'', ''PDAMP5'',
      ''PFAST'', ''PGAP'', ''PRAC2D'', ''PRAC3D'', ''PCONEAX'',
      ''PVISC'', ''PBCOMP'', ''PBEND'']"

section \<open>get_area_breakdown\<close>

text \<open>
  The dictionary \<^verbatim>\<open>pid_eids\<close> returned by \<^verbatim>\<open>get_element_ids_dict_with_pids\<close> (defined
  outside these sources) is a parameter of each breakdown: the list of its items in
  iteration order. The two \<^verbatim>\<open>print\<close> calls before a re-raise are not modelled.
\<close>

text \<open>
  The loop body \<^verbatim>\<open>elem = self.elements[eid]; areas.append(elem.Area())\<close>, which the
  three breakdowns share.
\<close>

definition append_Area_step :: "bdf \<Rightarrow> int \<Rightarrow> real list \<Rightarrow> error + real list" where
  "append_Area_step model eid areas =
     bind_e (getitem (elements model) eid) (\<lambda>elem.
     bind_e (attr (elem_Area elem)) (\<lambda>a.
     Inr (areas @ [a])))"

text \<open>The body of the loop over the elements of a line-like property.\<close>

definition area_line_step :: "bdf \<Rightarrow> bool \<Rightarrow> int \<Rightarrow> real list \<Rightarrow> error + real list" where
  "area_line_step model sum_bar_area eid areas =
     bind_e (getitem (elements model) eid) (\<lambda>elem.
     bind_e (attr (elem_Area elem)) (\<lambda>a.
     if sum_bar_area then Inr (areas @ [a]) else Inr [a]))"

text \<open>The \<^verbatim>\<open>if/elif\<close> chain on \<^verbatim>\<open>prop.type\<close>: the list \<^verbatim>\<open>areas\<close> of one property.\<close>

definition prop_areas :: "bdf \<Rightarrow> bool \<Rightarrow> property \<Rightarrow> int list \<Rightarrow> error + real list" where
  "prop_areas model sum_bar_area prop eids =
     (if prop_type prop \<in> set shell_props then
        for_each (append_Area_step model) eids []
      else if prop_type prop \<in> set line_props then
        for_each (area_line_step model sum_bar_area) eids []
      else if prop_type prop \<in> set skip_props then
        Inr []
      else
        Inl (NotImplementedError prop))"

text \<open>The body of the loop over \<^verbatim>\<open>pid_eids\<close>.\<close>

definition area_prop_step ::
  "bdf \<Rightarrow> bool \<Rightarrow> int \<times> int list \<Rightarrow> (int \<times> real) list \<Rightarrow> error + (int \<times> real) list" where
  "area_prop_step model sum_bar_area item pids_to_area =
     (case item of (pid, eids) \<Rightarrow>
        bind_e (getitem (properties model) pid) (\<lambda>prop.
        bind_e (prop_areas model sum_bar_area prop eids) (\<lambda>areas.
        Inr (if areas \<noteq> [] then setitem pid (py_sum areas) pids_to_area else pids_to_area))))"

definition get_area_breakdown ::
  "bdf \<Rightarrow> (int \<times> int list) list \<Rightarrow> bool \<Rightarrow> error + (int \<times> real) list" where
  "get_area_breakdown model pid_eids sum_bar_area =
     for_each (area_prop_step model sum_bar_area) pid_eids []"

section \<open>get_volume_breakdown\<close>

text \<open>The loop body \<^verbatim>\<open>elem = self.elements[eid]; lengths.append(elem.Length())\<close>.\<close>

definition append_Length_step :: "bdf \<Rightarrow> int \<Rightarrow> real list \<Rightarrow> error + real list" where
  "append_Length_step model eid lengths =
     bind_e (getitem (elements model) eid) (\<lambda>elem.
     bind_e (attr (elem_Length elem)) (\<lambda>length.
     Inr (lengths @ [length])))"

text \<open>
  The body of the loop over the elements of a solid-like property. Its state is the list
  \<^verbatim>\<open>volumes\<close> and the set \<^verbatim>\<open>skipped_eid_pid\<close>; \<^verbatim>\<open>self.log.debug\<close> appends an entry to
  the log.
\<close>

definition volume_solid_step ::
  "bdf \<Rightarrow> property \<Rightarrow> int \<Rightarrow> real list \<times> (string \<times> string) set \<Rightarrow> log_entry list \<Rightarrow>
     (error + real list \<times> (string \<times> string) set) \<times> log_entry list" where
  "volume_solid_step model prop eid st lg =
     (case st of (volumes, skipped_eid_pid) \<Rightarrow>
        (case getitem (elements model) eid of
           Inl e \<Rightarrow> (Inl e, lg)
         | Inr elem \<Rightarrow>
             if elem_type elem \<in> set solid_elems then
               (case attr (elem_Volume elem) of
                  Inl e \<Rightarrow> (Inl e, lg)
                | Inr v \<Rightarrow> (Inr (volumes @ [v], skipped_eid_pid), lg))
             else
               (let key = (elem_type elem, prop_type prop) in
                if key \<notin> skipped_eid_pid then
                  (Inr (volumes, insert key skipped_eid_pid), lg @ [SkippingVolume key])
                else (Inr (volumes, skipped_eid_pid), lg))))"

text \<open>The \<^verbatim>\<open>if/elif\<close> chain on \<^verbatim>\<open>prop.type\<close>: the list \<^verbatim>\<open>volumes\<close> of one property.\<close>

definition prop_volumes ::
  "bdf \<Rightarrow> property \<Rightarrow> int list \<Rightarrow> (string \<times> string) set \<Rightarrow> log_entry list \<Rightarrow>
     (error + real list \<times> (string \<times> string) set) \<times> log_entry list" where
  "prop_volumes model prop eids skipped_eid_pid lg =
     (if prop_type prop = ''PSHELL'' then
        (bind_e (attr (prop_t prop)) (\<lambda>thickness.
         bind_e (for_each (append_Area_step model) eids []) (\<lambda>areas.
         Inr (map (\<lambda>area. area * thickness) areas, skipped_eid_pid))), lg)
      else if prop_type prop \<in> set [''PCOMP'', ''PCOMPG''] then
        (bind_e (for_each (append_Area_step model) eids []) (\<lambda>areas.
         bind_e (attr (prop_Thickness prop)) (\<lambda>thickness.
         Inr (map (\<lambda>area. area * thickness) areas, skipped_eid_pid))), lg)
      else if prop_type prop \<in> set line_props then
        (bind_e (for_each (append_Length_step model) eids []) (\<lambda>lengths.
         bind_e (attr (prop_Area prop)) (\<lambda>area.
         Inr (map (\<lambda>length. area * length) lengths, skipped_eid_pid))), lg)
      else if prop_type prop \<in> set solid_props then
        for_each_log (volume_solid_step model prop) eids ([], skipped_eid_pid) lg
      else if prop_type prop = ''PSHEAR'' then
        (bind_e (attr (prop_t prop)) (\<lambda>thickness.
         bind_e (for_each (append_Area_step model) eids []) (\<lambda>areas.
         Inr (map (\<lambda>area. area * thickness) areas, skipped_eid_pid))), lg)
      else if prop_type prop \<in> set no_volume then
        (Inr ([], skipped_eid_pid), lg)
      else
        (Inl (NotImplementedError prop), lg))"

text \<open>The body of the loop over \<^verbatim>\<open>pid_eids\<close>.\<close>

definition volume_prop_step ::
  "bdf \<Rightarrow> int \<times> int list \<Rightarrow> (int \<times> real) list \<times> (string \<times> string) set \<Rightarrow> log_entry list \<Rightarrow>
     (error + (int \<times> real) list \<times> (string \<times> string) set) \<times> log_entry list" where
  "volume_prop_step model item st lg =
     (case item of (pid, eids) \<Rightarrow>
      case st of (pids_to_volume, skipped_eid_pid) \<Rightarrow>
        (case getitem (properties model) pid of
           Inl e \<Rightarrow> (Inl e, lg)
         | Inr prop \<Rightarrow>
             (case prop_volumes model prop eids skipped_eid_pid lg of
                (Inl e, lg') \<Rightarrow> (Inl e, lg')
              | (Inr (volumes, skipped'), lg') \<Rightarrow>
                  (Inr (if volumes \<noteq> [] then setitem pid (py_sum volumes) pids_to_volume
                        else pids_to_volume, skipped'), lg'))))"

text \<open>
  The result is what the call returns or raises, together with the entries it wrote to
  the log.
\<close>

definition get_volume_breakdown ::
  "bdf \<Rightarrow> (int \<times> int list) list \<Rightarrow> (error + (int \<times> real) list) \<times> log_entry list" where
  "get_volume_breakdown model pid_eids =
     (case for_each_log (volume_prop_step model) pid_eids ([], {}) [] of
        (Inl e, lg) \<Rightarrow> (Inl e, lg)
      | (Inr (pids_to_volume, skipped_eid_pid), lg) \<Rightarrow> (Inr pids_to_volume, lg))"

section \<open>get_mass_breakdown\<close>

text \<open>The body of the loop over \<^verbatim>\<open>self.masses\<close>.\<close>

definition mass_type_step ::
  "int \<times> element \<Rightarrow> (string \<times> real) list \<Rightarrow> error + (string \<times> real) list" where
  "mass_type_step item mass_type_to_mass =
     (case item of (eid, elem) \<Rightarrow>
        (case map_of mass_type_to_mass (elem_type elem) of
           None \<Rightarrow>
             bind_e (attr (elem_Mass elem)) (\<lambda>m.
             Inr (setitem (elem_type elem) m mass_type_to_mass))
         | Some old \<Rightarrow>
             bind_e (attr (elem_Mass elem)) (\<lambda>m.
             Inr (setitem (elem_type elem) (old + m) mass_type_to_mass))))"

text \<open>
  The shell-like mass formula in the words of the specification: area times (density
  times thickness plus non-structural mass per area), summed over the elements in the
  order of iteration.
\<close>

definition shell_like_mass :: "real \<Rightarrow> real \<Rightarrow> real \<Rightarrow> real list \<Rightarrow> real" where
  "shell_like_mass rho thickness nsm areas =
     py_sum (map (\<lambda>area. area * (rho * thickness + nsm)) areas)"

text \<open>The loop bodies over the elements of a property, one for each branch.\<close>

definition mass_shell_step ::
  "bdf \<Rightarrow> real \<Rightarrow> real \<Rightarrow> real \<Rightarrow> int \<Rightarrow> real list \<Rightarrow> error + real list" where
  "mass_shell_step model thickness nsm rho eid masses' =
     bind_e (getitem (elements model) eid) (\<lambda>elem.
     bind_e (attr (elem_Area elem)) (\<lambda>area.
     Inr (masses' @ [area * (rho * thickness + nsm)])))"

definition mass_comp_step :: "bdf \<Rightarrow> int \<Rightarrow> real list \<Rightarrow> error + real list" where
  "mass_comp_step model eid masses' =
     bind_e (getitem (elements model) eid) (\<lambda>elem.
     bind_e (attr (elem_Mass elem)) (\<lambda>m.
     Inr (masses' @ [m])))"

definition mass_line_step ::
  "bdf \<Rightarrow> property \<Rightarrow> real \<Rightarrow> real \<Rightarrow> int \<Rightarrow> real list \<Rightarrow> error + real list" where
  "mass_line_step model prop nsm rho eid masses' =
     bind_e (getitem (elements model) eid) (\<lambda>elem.
     bind_e (attr (prop_Area prop)) (\<lambda>area.
     bind_e (attr (elem_Length elem)) (\<lambda>length.
     Inr (masses' @ [area * (rho * length + nsm)]))))"

definition mass_solid_step ::
  "bdf \<Rightarrow> property \<Rightarrow> real \<Rightarrow> int \<Rightarrow> real list \<times> (string \<times> string) set \<Rightarrow> log_entry list \<Rightarrow>
     (error + real list \<times> (string \<times> string) set) \<times> log_entry list" where
  "mass_solid_step model prop rho eid st lg =
     (case st of (masses', skipped_eid_pid) \<Rightarrow>
        (case getitem (elements model) eid of
           Inl e \<Rightarrow> (Inl e, lg)
         | Inr elem \<Rightarrow>
             if elem_type elem \<in> set solid_elems then
               (case attr (elem_Volume elem) of
                  Inl e \<Rightarrow> (Inl e, lg)
                | Inr v \<Rightarrow> (Inr (masses' @ [rho * v], skipped_eid_pid), lg))
             else
               (let key = (elem_type elem, prop_type prop) in
                if key \<notin> skipped_eid_pid then
                  (Inr (masses', insert key skipped_eid_pid), lg @ [SkippingMass key])
                else (Inr (masses', skipped_eid_pid), lg))))"

text \<open>The \<^verbatim>\<open>if/elif\<close> chain on \<^verbatim>\<open>prop.type\<close>: the list \<^verbatim>\<open>masses\<close> of one property.\<close>

definition prop_masses ::
  "bdf \<Rightarrow> property \<Rightarrow> int list \<Rightarrow> (string \<times> string) set \<Rightarrow> log_entry list \<Rightarrow>
     (error + real list \<times> (string \<times> string) set) \<times> log_entry list" where
  "prop_masses model prop eids skipped_eid_pid lg =
     (if prop_type prop = ''PSHELL'' then
        (bind_e (attr (prop_t prop)) (\<lambda>thickness.
         bind_e (attr (prop_nsm prop)) (\<lambda>nsm.
         bind_e (attr (prop_Rho prop)) (\<lambda>rho.
         bind_e (for_each (mass_shell_step model thickness nsm rho) eids []) (\<lambda>masses'.
         Inr (masses', skipped_eid_pid))))), lg)
      else if prop_type prop \<in> set [''PCOMP'', ''PCOMPG''] then
        (bind_e (for_each (mass_comp_step model) eids []) (\<lambda>masses'.
         Inr (masses', skipped_eid_pid)), lg)
      else if prop_type prop \<in> set line_props then
        (bind_e (attr (prop_nsm prop)) (\<lambda>nsm.
         bind_e (attr (prop_Rho prop)) (\<lambda>rho.
         bind_e (for_each (mass_line_step model prop nsm rho) eids []) (\<lambda>masses'.
         Inr (masses', skipped_eid_pid)))), lg)
      else if prop_type prop \<in> set solid_props then
        (case attr (prop_Rho prop) of
           Inl e \<Rightarrow> (Inl e, lg)
         | Inr rho \<Rightarrow> for_each_log (mass_solid_step model prop rho) eids ([], skipped_eid_pid) lg)
      else if prop_type prop \<in> set properties_to_skip then
        (Inr ([], skipped_eid_pid), lg)
      else if prop_type prop = ''PSHEAR'' then
        (bind_e (attr (prop_t prop)) (\<lambda>thickness.
         bind_e (attr (prop_nsm prop)) (\<lambda>nsm.
         bind_e (attr (prop_Rho prop)) (\<lambda>rho.
         bind_e (for_each (mass_shell_step model thickness nsm rho) eids []) (\<lambda>masses'.
         Inr (masses', skipped_eid_pid))))), lg)
      else
        (Inl (NotImplementedError prop), lg))"

text \<open>The body of the loop over \<^verbatim>\<open>pid_eids\<close>.\<close>

definition mass_prop_step ::
  "bdf \<Rightarrow> int \<times> int list \<Rightarrow> (int \<times> real) list \<times> (string \<times> string) set \<Rightarrow> log_entry list \<Rightarrow>
     (error + (int \<times> real) list \<times> (string \<times> string) set) \<times> log_entry list" where
  "mass_prop_step model item st lg =
     (case item of (pid, eids) \<Rightarrow>
      case st of (pids_to_mass, skipped_eid_pid) \<Rightarrow>
        (case getitem (properties model) pid of
           Inl e \<Rightarrow> (Inl e, lg)
         | Inr prop \<Rightarrow>
             (case prop_masses model prop eids skipped_eid_pid lg of
                (Inl e, lg') \<Rightarrow> (Inl e, lg')
              | (Inr (masses', skipped'), lg') \<Rightarrow>
                  (Inr (if masses' \<noteq> [] then setitem pid (py_sum masses') pids_to_mass
                        else pids_to_mass, skipped'), lg'))))"

definition no_mass_msg :: string where
  "no_mass_msg = ''No elements with mass were found''"

text \<open>
  \<^verbatim>\<open>pid_eids\<close> is here the dictionary that \<^verbatim>\<open>get_element_ids_dict_with_pids\<close> returns when
  it is called with \<^verbatim>\<open>stop_if_no_eids=False\<close>.
\<close>

definition get_mass_breakdown ::
  "bdf \<Rightarrow> (int \<times> int list) list \<Rightarrow> bool \<Rightarrow>
     (error + (int \<times> real) list \<times> (string \<times> real) list) \<times> log_entry list" where
  "get_mass_breakdown model pid_eids stop_if_no_eids =
     (case for_each mass_type_step (masses model) [] of
        Inl e \<Rightarrow> (Inl e, [])
      | Inr mass_type_to_mass \<Rightarrow>
          (case for_each_log (mass_prop_step model) pid_eids ([], {}) [] of
             (Inl e, lg) \<Rightarrow> (Inl e, lg)
           | (Inr (pids_to_mass, skipped_eid_pid), lg) \<Rightarrow>
               if stop_if_no_eids \<and> length mass_type_to_mass = 0 \<and> length pids_to_mass = 0 then
                 (Inl (RuntimeError no_mass_msg), lg)
               else (Inr (pids_to_mass, mass_type_to_mass), lg)))"

section \<open>mass_properties\<close>

text \<open>
  \<^verbatim>\<open>reference_point\<close> is \<^verbatim>\<open>None\<close>, an integer (a node id), an array or a string.
\<close>

datatype reference_point =
  RefNone
  | RefInt int
  | RefArray vec3
  | RefStr string

text \<open>
  \<^verbatim>\<open>_mass_properties_elements_init\<close>, \<^verbatim>\<open>_mass_properties\<close> and \<^verbatim>\<open>_apply_mass_symmetry\<close>
  are imported from \<^verbatim>\<open>pyNastran.bdf.mesh_utils.mass_properties\<close>, which is outside these
  sources: they are the parameters \<open>elements_init\<close>, \<open>engine\<close> and \<open>apply_mass_symmetry\<close>.
  The method resolves the reference point and passes everything on.
\<close>

definition mass_properties ::
  "(bdf \<Rightarrow> 'eids \<Rightarrow> 'mids \<Rightarrow> error + 'eids \<times> 'elems \<times> 'mids \<times> 'masses) \<Rightarrow>
   (bdf \<Rightarrow> 'elems \<Rightarrow> 'masses \<Rightarrow> reference_point \<Rightarrow> error + 'm \<times> 'cg \<times> 'inertia) \<Rightarrow>
   (bdf \<Rightarrow> 'sym \<Rightarrow> 'scale \<Rightarrow> 'm \<Rightarrow> 'cg \<Rightarrow> 'inertia \<Rightarrow> error + 'm \<times> 'cg \<times> 'inertia) \<Rightarrow>
   bdf \<Rightarrow> 'eids \<Rightarrow> 'mids \<Rightarrow> reference_point \<Rightarrow> 'sym \<Rightarrow> 'scale \<Rightarrow>
     error + 'm \<times> 'cg \<times> 'inertia" where
  "mass_properties elements_init engine apply_mass_symmetry
       model element_ids mass_ids reference_point sym_axis scale =
     bind_e
       (case reference_point of
          RefNone \<Rightarrow> Inr (RefArray (0, 0, 0))
        | RefInt n \<Rightarrow>
            bind_e (getitem (nodes model) n) (\<lambda>nd.
            bind_e (attr (get_position nd)) (\<lambda>pos.
            Inr (RefArray pos)))
        | _ \<Rightarrow> Inr reference_point) (\<lambda>reference_point'.
     bind_e (elements_init model element_ids mass_ids) (\<lambda>(element_ids', elems, mass_ids', masses').
     bind_e (engine model elems masses' reference_point') (\<lambda>(mass, cg, I).
     apply_mass_symmetry model sym_axis scale mass cg I)))"

section \<open>Example models\<close>

definition bar_elem :: "real \<Rightarrow> real \<Rightarrow> element" where
  "bar_elem a l =
     \<lparr>elem_type = ''CBAR'', elem_Area = Some a, elem_Length = Some l,
      elem_Volume = None, elem_Mass = Some (a * l)\<rparr>"

definition bar_prop :: property where
  "bar_prop =
     \<lparr>prop_type = ''PBAR'', prop_t = None, prop_nsm = Some 1, prop_Rho = Some 2,
      prop_Thickness = None, prop_Area = Some 3\<rparr>"

definition bar_model :: "real \<Rightarrow> real \<Rightarrow> bdf" where
  "bar_model a1 a2 =
     \<lparr>properties = [1 \<mapsto> bar_prop],
      elements = [1 \<mapsto> bar_elem a1 4, 2 \<mapsto> bar_elem a2 6],
      masses = [], nodes = Map.empty\<rparr>"

definition node_model :: bdf where
  "node_model =
     \<lparr>properties = Map.empty, elements = Map.empty, masses = [],
      nodes = [7 \<mapsto> \<lparr>get_position = Some (1, 2, 3)\<rparr>]\<rparr>"

definition shell_elem :: "real \<Rightarrow> real \<Rightarrow> element" where
  "shell_elem a m =
     \<lparr>elem_type = ''CQUAD4'', elem_Area = Some a, elem_Length = None,
      elem_Volume = None, elem_Mass = Some m\<rparr>"

definition shell_prop :: "string \<Rightarrow> property" where
  "shell_prop ty =
     \<lparr>prop_type = ty, prop_t = Some 1, prop_nsm = Some 0, prop_Rho = Some 1,
      prop_Thickness = Some 1, prop_Area = None\<rparr>"

definition shell_model :: "string \<Rightarrow> bdf" where
  "shell_model ty =
     \<lparr>properties = [1 \<mapsto> shell_prop ty],
      elements = [1 \<mapsto> shell_elem 2 7],
      masses = [], nodes = Map.empty\<rparr>"

definition bush_prop :: property where
  "bush_prop =
     \<lparr>prop_type = ''PBUSH'', prop_t = None, prop_nsm = None, prop_Rho = None,
      prop_Thickness = None, prop_Area = None\<rparr>"

definition solid_prop :: property where
  "solid_prop =
     \<lparr>prop_type = ''PSOLID'', prop_t = None, prop_nsm = None, prop_Rho = Some 3,
      prop_Thickness = None, prop_Area = None\<rparr>"

definition solid_elem :: "string \<Rightarrow> real option \<Rightarrow> element" where
  "solid_elem ty v =
     \<lparr>elem_type = ty, elem_Area = None, elem_Length = None,
      elem_Volume = v, elem_Mass = None\<rparr>"

definition bush_elem :: element where
  "bush_elem =
     \<lparr>elem_type = ''CBUSH'', elem_Area = None, elem_Length = None,
      elem_Volume = None, elem_Mass = Some 0\<rparr>"

definition mixed_model :: bdf where
  "mixed_model =
     \<lparr>properties = [1 \<mapsto> shell_prop ''PSHELL'', 2 \<mapsto> bush_prop, 3 \<mapsto> solid_prop],
      elements = [1 \<mapsto> shell_elem 2 7, 2 \<mapsto> bush_elem, 3 \<mapsto> solid_elem ''CTETRA'' (Some 5),
                  4 \<mapsto> solid_elem ''CPYRAM'' None, 5 \<mapsto> solid_elem ''CPYRAM'' None],
      masses = [], nodes = Map.empty\<rparr>"

definition mixed_pid_eids :: "(int \<times> int list) list" where
  "mixed_pid_eids = [(1, [1]), (2, [2]), (3, [3, 4, 5])]"

definition foo_prop :: property where
  "foo_prop =
     \<lparr>prop_type = ''PFOO'', prop_t = Some 1, prop_nsm = Some 0, prop_Rho = Some 1,
      prop_Thickness = Some 1, prop_Area = Some 1\<rparr>"

definition foo_model :: bdf where
  "foo_model =
     \<lparr>properties = [1 \<mapsto> shell_prop ''PSHELL'', 9 \<mapsto> foo_prop],
      elements = [1 \<mapsto> shell_elem 2 7, 2 \<mapsto> shell_elem 3 8],
      masses = [], nodes = Map.empty\<rparr>"

definition no_mass_pid_eids :: "(int \<times> int list) list" where
  "no_mass_pid_eids = [(1, []), (2, [2]), (3, [4, 5])]"

definition conm2 :: "real \<Rightarrow> element" where
  "conm2 m =
     \<lparr>elem_type = ''CONM2'', elem_Area = None, elem_Length = None,
      elem_Volume = None, elem_Mass = Some m\<rparr>"

definition point_mass_model :: bdf where
  "point_mass_model =
     \<lparr>properties = [2 \<mapsto> bush_prop], elements = [2 \<mapsto> bush_elem],
      masses = [(10, conm2 0)], nodes = Map.empty\<rparr>"

definition laminate_prop :: "string \<Rightarrow> real \<Rightarrow> real \<Rightarrow> real \<Rightarrow> property" where
  "laminate_prop ty t nsm rho =
     \<lparr>prop_type = ty, prop_t = Some t, prop_nsm = Some nsm, prop_Rho = Some rho,
      prop_Thickness = Some t, prop_Area = None\<rparr>"

definition laminate_model :: bdf where
  "laminate_model =
     \<lparr>properties =
        [1 \<mapsto> laminate_prop ''PSHELL'' 2 1 3, 2 \<mapsto> laminate_prop ''PCOMP'' 2 1 3,
         3 \<mapsto> laminate_prop ''PSHEAR'' 4 2 5, 4 \<mapsto> laminate_prop ''PCOMPG'' 4 2 5],
      elements =
        [11 \<mapsto> shell_elem 4 9, 12 \<mapsto> shell_elem 5 10,
         21 \<mapsto> shell_elem 1 7, 22 \<mapsto> shell_elem 1 8,
         31 \<mapsto> shell_elem 1 0, 32 \<mapsto> shell_elem 2 0, 33 \<mapsto> shell_elem 3 0,
         41 \<mapsto> shell_elem 1 6, 42 \<mapsto> shell_elem 1 11],
      masses = [], nodes = Map.empty\<rparr>"

definition line_prop :: "string \<Rightarrow> real \<Rightarrow> real \<Rightarrow> real \<Rightarrow> property" where
  "line_prop ty A nsm rho =
     \<lparr>prop_type = ty, prop_t = None, prop_nsm = Some nsm, prop_Rho = Some rho,
      prop_Thickness = None, prop_Area = Some A\<rparr>"

definition truss_model :: bdf where
  "truss_model =
     \<lparr>properties = [1 \<mapsto> line_prop ''PBAR'' 3 1 2, 2 \<mapsto> line_prop ''PTUBE'' 2 0 5],
      elements = [1 \<mapsto> bar_elem 3 4, 2 \<mapsto> bar_elem 3 6, 3 \<mapsto> bar_elem 2 7],
      masses = [], nodes = Map.empty\<rparr>"

section \<open>Auxiliary facts\<close>

lemma bind_e_simps [simp]:
  "bind_e (Inl e) f = Inl e"
  "bind_e (Inr v) f = f v"
  by (simp_all add: bind_e_def)

lemma bind_e_eq_Inr: "bind_e r f = Inr y \<longleftrightarrow> (\<exists>v. r = Inr v \<and> f v = Inr y)"
  by (cases r) simp_all

lemma getitem_simps [simp]:
  "d k = Some v \<Longrightarrow> getitem d k = Inr v"
  "d k = None \<Longrightarrow> getitem d k = Inl KeyError"
  by (simp_all add: getitem_def)

lemma getitem_eq_Inr [simp]: "getitem d k = Inr v \<longleftrightarrow> d k = Some v"
  by (simp add: getitem_def split: option.splits)

lemma attr_simps [simp]:
  "attr (Some v) = Inr v"
  "attr None = Inl AttributeError"
  by (simp_all add: attr_def)

lemma attr_eq_Inr [simp]: "attr a = Inr v \<longleftrightarrow> a = Some v"
  by (simp add: attr_def split: option.splits)

lemma foldl_plus_sum_list: "foldl (+) a xs = a + sum_list (xs :: real list)"
  by (induction xs arbitrary: a) (simp_all add: add.assoc)

lemma py_sum_eq: "py_sum xs = sum_list xs"
  by (simp add: py_sum_def foldl_plus_sum_list)

lemma setitem_nonempty [simp]: "setitem k v d \<noteq> []"
  by (simp add: setitem_def)

lemma map_of_setitem [simp]: "map_of (setitem k v d) = (map_of d)(k \<mapsto> v)"
  by (simp add: setitem_def update_conv')

text \<open>Loops that look an element up, read one accessor and append.\<close>

lemma for_each_collect:
  assumes step: "\<And>eid acc. step eid acc =
      bind_e (getitem (elements model) eid) (\<lambda>elem.
      bind_e (attr (g elem)) (\<lambda>a. Inr (acc @ [h a])))"
    and "map (elements model) eids = map Some elems"
    and "map g elems = map Some vals"
  shows "for_each step eids acc = Inr (acc @ map h vals)"
  using assms(2,3)
proof (induction eids arbitrary: elems vals acc)
  case Nil
  then show ?case by simp
next
  case (Cons eid eids)
  from Cons.prems(1) obtain el els where els: "elems = el # els"
    "elements model eid = Some el" "map (elements model) eids = map Some els"
    by (cases elems) auto
  from Cons.prems(2) els obtain v vs where vs: "vals = v # vs" "g el = Some v"
    "map g els = map Some vs"
    by (cases vals) auto
  show ?case
    using Cons.IH [OF els(3) vs(3), of "acc @ [h v]"] els vs
    by (simp add: step)
qed

text \<open>The bar loop of \<open>get_area_breakdown\<close>.\<close>

lemma for_each_area_line_sum:
  assumes "map (elements model) eids = map Some elems"
    and "map elem_Area elems = map Some areas"
  shows "for_each (area_line_step model True) eids acc = Inr (acc @ areas)"
  using for_each_collect [where step = "area_line_step model True" and g = elem_Area
      and h = "\<lambda>a. a", OF _ assms]
  by (simp add: area_line_step_def)

lemma for_each_area_line_last:
  assumes "map (elements model) eids = map Some elems"
    and "map elem_Area elems = map Some areas"
  shows "for_each (area_line_step model False) eids acc =
           Inr (if eids = [] then acc else [last areas])"
  using assms
proof (induction eids arbitrary: elems areas acc)
  case Nil
  then show ?case by simp
next
  case (Cons eid eids)
  from Cons.prems(1) obtain el els where els: "elems = el # els"
    "elements model eid = Some el" "map (elements model) eids = map Some els"
    by (cases elems) auto
  from Cons.prems(2) els obtain v vs where vs: "areas = v # vs" "elem_Area el = Some v"
    "map elem_Area els = map Some vs"
    by (cases areas) auto
  have "eids = [] \<longleftrightarrow> vs = []"
    using els(3) vs(3) by (metis map_is_Nil_conv)
  then show ?case
    using Cons.IH [OF els(3) vs(3), of "[v]"] els vs
    by (simp add: area_line_step_def)
qed

text \<open>General facts about the two loops.\<close>

lemma for_each_append:
  "for_each body (xs @ ys) s =
     (case for_each body xs s of Inl e \<Rightarrow> Inl e | Inr s' \<Rightarrow> for_each body ys s')"
  by (induction xs arbitrary: s) (simp_all split: sum.splits)

lemma for_each_log_append:
  "for_each_log body (xs @ ys) s lg =
     (case for_each_log body xs s lg of
        (Inl e, lg') \<Rightarrow> (Inl e, lg')
      | (Inr s', lg') \<Rightarrow> for_each_log body ys s' lg')"
  by (induction xs arbitrary: s lg) (simp_all split: sum.splits prod.splits)

lemma for_each_as_log:
  "for_each_log (\<lambda>x s lg. (body x s, lg)) xs s lg = (for_each body xs s, lg)"
  by (induction xs arbitrary: s) (simp_all split: sum.splits)

lemma for_each_log_raises:
  assumes "x \<in> set xs"
    and "\<And>s lg. \<exists>e lg'. body x s lg = (Inl e, lg')"
  shows "\<exists>e lg'. for_each_log body xs s lg = (Inl e, lg')"
  using assms(1)
proof (induction xs arbitrary: s lg)
  case Nil
  then show ?case by simp
next
  case (Cons y ys)
  show ?case
  proof (cases "body y s lg")
    case (Pair r lg1)
    show ?thesis
    proof (cases r)
      case (Inl e)
      with Pair show ?thesis by simp
    next
      case (Inr s1)
      with Pair assms(2) [of s lg] have "x \<noteq> y" by auto
      with Cons.prems have "x \<in> set ys" by simp
      from Cons.IH [OF this, of s1 lg1] Pair Inr show ?thesis by simp
    qed
  qed
qed

lemma for_each_log_inv:
  assumes "for_each_log body xs s lg = (r, lg')"
    and "P s lg"
    and "\<forall>x\<in>set xs. \<forall>s lg r lg'. P s lg \<longrightarrow> body x s lg = (r, lg') \<longrightarrow>
           (case r of Inl e \<Rightarrow> Q lg' | Inr s' \<Rightarrow> P s' lg')"
  shows "case r of Inl e \<Rightarrow> Q lg' | Inr s' \<Rightarrow> P s' lg'"
  using assms
proof (induction xs arbitrary: s lg)
  case Nil
  then show ?case by auto
next
  case (Cons y ys)
  obtain r1 lg1 where b: "body y s lg = (r1, lg1)" by (cases "body y s lg")
  from Cons.prems(3) Cons.prems(2) b
  have step: "case r1 of Inl e \<Rightarrow> Q lg1 | Inr s' \<Rightarrow> P s' lg1" by simp
  show ?case
  proof (cases r1)
    case (Inl e)
    with b Cons.prems(1) step show ?thesis by auto
  next
    case (Inr s1)
    with b Cons.prems(1) have rest: "for_each_log body ys s1 lg1 = (r, lg')" by simp
    from step Inr have p1: "P s1 lg1" by simp
    from Cons.prems(3) have "\<forall>x\<in>set ys. \<forall>s lg r lg'. P s lg \<longrightarrow> body x s lg = (r, lg') \<longrightarrow>
           (case r of Inl e \<Rightarrow> Q lg' | Inr s' \<Rightarrow> P s' lg')" by simp
    from Cons.IH [OF rest p1 this] show ?thesis .
  qed
qed

lemma for_each_log_untouched:
  assumes "for_each_log body xs s lg = (Inr s', lg')"
    and "\<forall>x\<in>set xs. \<forall>s lg s1 lg1. body x s lg = (Inr s1, lg1) \<longrightarrow> look s1 = look s"
  shows "look s' = look s"
  using assms
proof (induction xs arbitrary: s lg)
  case Nil
  then show ?case by simp
next
  case (Cons y ys)
  from Cons.prems(1) obtain s1 lg1 where b: "body y s lg = (Inr s1, lg1)"
    and rest: "for_each_log body ys s1 lg1 = (Inr s', lg')"
    by (auto split: sum.splits prod.splits)
  from Cons.prems(2)
  have "\<forall>x\<in>set ys. \<forall>s lg s1 lg1. body x s lg = (Inr s1, lg1) \<longrightarrow> look s1 = look s"
    by simp
  from Cons.IH [OF rest this] have "look s' = look s1" .
  moreover have "look s1 = look s"
    using Cons.prems(2) b by (meson list.set_intros(1))
  ultimately show ?case by simp
qed

lemma for_each_log_keyed:
  assumes "for_each_log body items s lg = (Inr s', lg')"
    and "(k, v) \<in> set items"
    and "distinct (map fst items)"
    and pres: "\<And>x s lg s1 lg1. fst x \<noteq> k \<Longrightarrow> body x s lg = (Inr s1, lg1) \<Longrightarrow> look s1 = look s"
  shows "\<exists>s0 lg0 s1 lg1. body (k, v) s0 lg0 = (Inr s1, lg1) \<and> look s' = look s1"
  using assms(1,2,3)
proof (induction items arbitrary: s lg)
  case Nil
  then show ?case by simp
next
  case (Cons y ys)
  from Cons.prems(1) obtain s1 lg1 where b: "body y s lg = (Inr s1, lg1)"
    and rest: "for_each_log body ys s1 lg1 = (Inr s', lg')"
    by (auto split: sum.splits prod.splits)
  show ?case
  proof (cases "y = (k, v)")
    case True
    with Cons.prems(3) have "\<forall>x\<in>set ys. fst x \<noteq> k" by force
    with pres
    have "\<forall>x\<in>set ys. \<forall>s lg s1 lg1. body x s lg = (Inr s1, lg1) \<longrightarrow> look s1 = look s"
      by blast
    from for_each_log_untouched [OF rest this] have "look s' = look s1" .
    with b True show ?thesis by blast
  next
    case False
    with Cons.prems have "(k, v) \<in> set ys" "distinct (map fst ys)" by auto
    from Cons.IH [OF rest this] show ?thesis .
  qed
qed

lemma for_each_log_origin:
  assumes "for_each_log body items s lg = (Inr s', lg')"
    and "P s'" and "\<not> P s"
  shows "\<exists>x\<in>set items. \<exists>s0 lg0 s1 lg1. body x s0 lg0 = (Inr s1, lg1) \<and> \<not> P s0 \<and> P s1"
  using assms
proof (induction items arbitrary: s lg)
  case Nil
  then show ?case by simp
next
  case (Cons y ys)
  from Cons.prems(1) obtain s1 lg1 where b: "body y s lg = (Inr s1, lg1)"
    and rest: "for_each_log body ys s1 lg1 = (Inr s', lg')"
    by (auto split: sum.splits prod.splits)
  show ?case
  proof (cases "P s1")
    case True
    with b Cons.prems(3) show ?thesis by fastforce
  next
    case False
    from Cons.IH [OF rest Cons.prems(2) False] show ?thesis by auto
  qed
qed

lemma for_each_keyed:
  assumes "for_each body items s = Inr s'"
    and "(k, v) \<in> set items"
    and "distinct (map fst items)"
    and pres: "\<And>x s s1. fst x \<noteq> k \<Longrightarrow> body x s = Inr s1 \<Longrightarrow> look s1 = look s"
  shows "\<exists>s0 s1. body (k, v) s0 = Inr s1 \<and> look s' = look s1"
proof -
  have "for_each_log (\<lambda>x s lg. (body x s, lg)) items s [] = (Inr s', [])"
    using assms(1) by (simp add: for_each_as_log)
  from for_each_log_keyed [OF this assms(2,3), of look] pres
  show ?thesis by auto
qed

lemma for_each_origin:
  assumes "for_each body items s = Inr s'"
    and "P s'" and "\<not> P s"
  shows "\<exists>x\<in>set items. \<exists>s0 s1. body x s0 = Inr s1 \<and> \<not> P s0 \<and> P s1"
proof -
  have "for_each_log (\<lambda>x s lg. (body x s, lg)) items s [] = (Inr s', [])"
    using assms(1) by (simp add: for_each_as_log)
  from for_each_log_origin [OF this, of P] assms(2,3)
  show ?thesis by auto
qed

lemma for_each_raises:
  assumes "x \<in> set xs"
    and "\<And>s. \<exists>e. body x s = Inl e"
  shows "\<exists>e. for_each body xs s = Inl e"
proof -
  have "\<exists>e lg'. for_each_log (\<lambda>x s lg. (body x s, lg)) xs s [] = (Inl e, lg')"
    using assms(2) by (intro for_each_log_raises [OF assms(1)]) auto
  then show ?thesis by (simp add: for_each_as_log)
qed

subsection \<open>The loop over the properties in get_area_breakdown\<close>

lemma area_prop_step_Inr:
  assumes "area_prop_step model sba (pid, eids) d0 = Inr d1"
  shows "\<exists>prop areas. properties model pid = Some prop \<and>
           prop_areas model sba prop eids = Inr areas \<and>
           d1 = (if areas \<noteq> [] then setitem pid (py_sum areas) d0 else d0)"
  using assms by (auto simp: area_prop_step_def bind_e_eq_Inr)

lemma area_prop_step_other:
  assumes "fst x \<noteq> pid" and "area_prop_step model sba x d0 = Inr d1"
  shows "map_of d1 pid = map_of d0 pid"
proof -
  obtain p es where x: "x = (p, es)" by (cases x)
  from area_prop_step_Inr [OF assms(2) [unfolded x]] assms(1) x
  show ?thesis by auto
qed

lemma area_breakdown_at:
  assumes "get_area_breakdown model pid_eids sba = Inr pids_to_area"
    and "(pid, eids) \<in> set pid_eids"
    and "distinct (map fst pid_eids)"
    and "properties model pid = Some prop"
  shows "\<exists>areas. prop_areas model sba prop eids = Inr areas \<and>
           (areas \<noteq> [] \<longrightarrow> map_of pids_to_area pid = Some (py_sum areas))"
proof -
  from for_each_keyed [OF assms(1) [unfolded get_area_breakdown_def] assms(2,3),
      of "\<lambda>d. map_of d pid"] area_prop_step_other
  obtain d0 d1 where st: "area_prop_step model sba (pid, eids) d0 = Inr d1"
    and eq: "map_of pids_to_area pid = map_of d1 pid"
    by blast
  from area_prop_step_Inr [OF st] assms(4) eq show ?thesis by auto
qed

lemma area_breakdown_origin:
  assumes "get_area_breakdown model pid_eids sba = Inr pids_to_area"
    and "map_of pids_to_area pid \<noteq> None"
  shows "\<exists>eids prop areas. (pid, eids) \<in> set pid_eids \<and> properties model pid = Some prop \<and>
           prop_areas model sba prop eids = Inr areas \<and> areas \<noteq> []"
proof -
  from for_each_origin [OF assms(1) [unfolded get_area_breakdown_def],
      of "\<lambda>d. map_of d pid \<noteq> None"] assms(2)
  obtain x d0 d1 where x: "x \<in> set pid_eids"
    and st: "area_prop_step model sba x d0 = Inr d1"
    and d0: "map_of d0 pid = None" and d1: "map_of d1 pid \<noteq> None"
    by auto
  obtain p es where xp: "x = (p, es)" by (cases x)
  from area_prop_step_Inr [OF st [unfolded xp]] obtain pp areas where
    pr: "properties model p = Some pp" "prop_areas model sba pp es = Inr areas"
    "d1 = (if areas \<noteq> [] then setitem p (py_sum areas) d0 else d0)"
    by blast
  from pr(3) d0 d1 have "areas \<noteq> []" "p = pid"
    by (auto split: if_splits)
  with x xp pr show ?thesis by blast
qed

subsection \<open>The loop over the properties in get_volume_breakdown\<close>

lemma volume_prop_step_Inr:
  assumes "volume_prop_step model (pid, eids) (d0, sk0) lg0 = (Inr (d1, sk1), lg1)"
  shows "\<exists>prop vols. properties model pid = Some prop \<and>
           prop_volumes model prop eids sk0 lg0 = (Inr (vols, sk1), lg1) \<and>
           d1 = (if vols \<noteq> [] then setitem pid (py_sum vols) d0 else d0)"
proof -
  from assms obtain pp where p: "properties model pid = Some pp"
    by (cases "properties model pid") (simp_all add: volume_prop_step_def)
  obtain r lg' where r: "prop_volumes model pp eids sk0 lg0 = (r, lg')"
    by (cases "prop_volumes model pp eids sk0 lg0")
  from assms p r obtain vols sk' where v: "r = Inr (vols, sk')"
    by (cases r) (auto simp: volume_prop_step_def)
  from assms p r v show ?thesis
    by (simp add: volume_prop_step_def)
qed

lemma volume_prop_step_other:
  assumes "fst x \<noteq> pid" and "volume_prop_step model x s0 lg0 = (Inr s1, lg1)"
  shows "map_of (fst s1) pid = map_of (fst s0) pid"
proof -
  obtain p es where x: "x = (p, es)" by (cases x)
  obtain d0 sk0 where s0: "s0 = (d0, sk0)" by (cases s0)
  obtain d1 sk1 where s1: "s1 = (d1, sk1)" by (cases s1)
  from volume_prop_step_Inr [OF assms(2) [unfolded x s0 s1]] assms(1) x s0 s1
  show ?thesis by auto
qed

lemma volume_breakdown_loop:
  assumes "fst (get_volume_breakdown model pid_eids) = Inr d"
  shows "\<exists>sk lg. for_each_log (volume_prop_step model) pid_eids ([], {}) [] = (Inr (d, sk), lg)"
  using assms
  by (auto simp: get_volume_breakdown_def split: prod.splits sum.splits)

lemma volume_breakdown_at:
  assumes "fst (get_volume_breakdown model pid_eids) = Inr pids_to_volume"
    and "(pid, eids) \<in> set pid_eids"
    and "distinct (map fst pid_eids)"
    and "properties model pid = Some prop"
  shows "\<exists>vols sk lg sk' lg'. prop_volumes model prop eids sk lg = (Inr (vols, sk'), lg') \<and>
           (vols \<noteq> [] \<longrightarrow> map_of pids_to_volume pid = Some (py_sum vols))"
proof -
  from volume_breakdown_loop [OF assms(1)] obtain sk lg where
    loop: "for_each_log (volume_prop_step model) pid_eids ([], {}) [] = (Inr (pids_to_volume, sk), lg)"
    by blast
  have "\<exists>s0 lg0 s1 lg1. volume_prop_step model (pid, eids) s0 lg0 = (Inr s1, lg1) \<and>
          map_of (fst (pids_to_volume, sk)) pid = map_of (fst s1) pid"
    by (rule for_each_log_keyed [OF loop assms(2,3)]) (rule volume_prop_step_other)
  then obtain s0 lg0 s1 lg1 where st: "volume_prop_step model (pid, eids) s0 lg0 = (Inr s1, lg1)"
    and eq: "map_of pids_to_volume pid = map_of (fst s1) pid"
    by auto
  obtain d0 sk0 where s0: "s0 = (d0, sk0)" by (cases s0)
  obtain d1 sk1 where s1: "s1 = (d1, sk1)" by (cases s1)
  from volume_prop_step_Inr [OF st [unfolded s0 s1]] obtain prop' vols where
    pr: "properties model pid = Some prop'"
    "prop_volumes model prop' eids sk0 lg0 = (Inr (vols, sk1), lg1)"
    "d1 = (if vols \<noteq> [] then setitem pid (py_sum vols) d0 else d0)"
    by blast
  from pr(1) assms(4) have "prop' = prop" by simp
  moreover from pr(3) eq s1 have "vols \<noteq> [] \<longrightarrow> map_of pids_to_volume pid = Some (py_sum vols)"
    by simp
  ultimately show ?thesis using pr(2) by blast
qed

lemma volume_breakdown_origin:
  assumes "fst (get_volume_breakdown model pid_eids) = Inr pids_to_volume"
    and "map_of pids_to_volume pid \<noteq> None"
  shows "\<exists>eids prop vols sk lg sk' lg'. (pid, eids) \<in> set pid_eids \<and>
           properties model pid = Some prop \<and>
           prop_volumes model prop eids sk lg = (Inr (vols, sk'), lg') \<and> vols \<noteq> []"
proof -
  from volume_breakdown_loop [OF assms(1)] obtain sk lg where
    loop: "for_each_log (volume_prop_step model) pid_eids ([], {}) [] = (Inr (pids_to_volume, sk), lg)"
    by blast
  have "\<exists>x\<in>set pid_eids. \<exists>s0 lg0 s1 lg1. volume_prop_step model x s0 lg0 = (Inr s1, lg1) \<and>
          \<not> map_of (fst s0) pid \<noteq> None \<and> map_of (fst s1) pid \<noteq> None"
    by (rule for_each_log_origin [OF loop]) (use assms(2) in simp_all)
  then obtain x s0 lg0 s1 lg1 where x: "x \<in> set pid_eids"
    and st: "volume_prop_step model x s0 lg0 = (Inr s1, lg1)"
    and n0: "map_of (fst s0) pid = None" and n1: "map_of (fst s1) pid \<noteq> None"
    by auto
  obtain p es where xp: "x = (p, es)" by (cases x)
  obtain d0 sk0 where s0: "s0 = (d0, sk0)" by (cases s0)
  obtain d1 sk1 where s1: "s1 = (d1, sk1)" by (cases s1)
  from volume_prop_step_Inr [OF st [unfolded xp s0 s1]] obtain pp vols where
    pr: "properties model p = Some pp"
    "prop_volumes model pp es sk0 lg0 = (Inr (vols, sk1), lg1)"
    "d1 = (if vols \<noteq> [] then setitem p (py_sum vols) d0 else d0)"
    by blast
  from pr(3) n0 n1 s0 s1 have "vols \<noteq> []" "p = pid"
    by (auto split: if_splits)
  with x xp pr show ?thesis by blast
qed

subsection \<open>The loop over the properties in get_mass_breakdown\<close>

lemma mass_prop_step_Inr:
  assumes "mass_prop_step model (pid, eids) (d0, sk0) lg0 = (Inr (d1, sk1), lg1)"
  shows "\<exists>prop ms. properties model pid = Some prop \<and>
           prop_masses model prop eids sk0 lg0 = (Inr (ms, sk1), lg1) \<and>
           d1 = (if ms \<noteq> [] then setitem pid (py_sum ms) d0 else d0)"
proof -
  from assms obtain pp where p: "properties model pid = Some pp"
    by (cases "properties model pid") (simp_all add: mass_prop_step_def)
  obtain r lg' where r: "prop_masses model pp eids sk0 lg0 = (r, lg')"
    by (cases "prop_masses model pp eids sk0 lg0")
  from assms p r obtain ms sk' where v: "r = Inr (ms, sk')"
    by (cases r) (auto simp: mass_prop_step_def)
  from assms p r v show ?thesis
    by (simp add: mass_prop_step_def)
qed

lemma mass_prop_step_other:
  assumes "fst x \<noteq> pid" and "mass_prop_step model x s0 lg0 = (Inr s1, lg1)"
  shows "map_of (fst s1) pid = map_of (fst s0) pid"
proof -
  obtain p es where x: "x = (p, es)" by (cases x)
  obtain d0 sk0 where s0: "s0 = (d0, sk0)" by (cases s0)
  obtain d1 sk1 where s1: "s1 = (d1, sk1)" by (cases s1)
  from mass_prop_step_Inr [OF assms(2) [unfolded x s0 s1]] assms(1) x s0 s1
  show ?thesis by auto
qed

lemma mass_breakdown_loop:
  assumes "fst (get_mass_breakdown model pid_eids stop) = Inr (d, mtm)"
  shows "for_each mass_type_step (masses model) [] = Inr mtm \<and>
         (\<exists>sk lg. for_each_log (mass_prop_step model) pid_eids ([], {}) [] = (Inr (d, sk), lg))"
  using assms
  by (auto simp: get_mass_breakdown_def split: prod.splits sum.splits if_splits)

lemma mass_breakdown_at:
  assumes "fst (get_mass_breakdown model pid_eids stop) = Inr (pids_to_mass, mtm)"
    and "(pid, eids) \<in> set pid_eids"
    and "distinct (map fst pid_eids)"
    and "properties model pid = Some prop"
  shows "\<exists>ms sk lg sk' lg'. prop_masses model prop eids sk lg = (Inr (ms, sk'), lg') \<and>
           (ms \<noteq> [] \<longrightarrow> map_of pids_to_mass pid = Some (py_sum ms))"
proof -
  from mass_breakdown_loop [OF assms(1)] obtain sk lg where
    loop: "for_each_log (mass_prop_step model) pid_eids ([], {}) [] = (Inr (pids_to_mass, sk), lg)"
    by blast
  have "\<exists>s0 lg0 s1 lg1. mass_prop_step model (pid, eids) s0 lg0 = (Inr s1, lg1) \<and>
          map_of (fst (pids_to_mass, sk)) pid = map_of (fst s1) pid"
    by (rule for_each_log_keyed [OF loop assms(2,3)]) (rule mass_prop_step_other)
  then obtain s0 lg0 s1 lg1 where st: "mass_prop_step model (pid, eids) s0 lg0 = (Inr s1, lg1)"
    and eq: "map_of pids_to_mass pid = map_of (fst s1) pid"
    by auto
  obtain d0 sk0 where s0: "s0 = (d0, sk0)" by (cases s0)
  obtain d1 sk1 where s1: "s1 = (d1, sk1)" by (cases s1)
  from mass_prop_step_Inr [OF st [unfolded s0 s1]] obtain prop' ms where
    pr: "properties model pid = Some prop'"
    "prop_masses model prop' eids sk0 lg0 = (Inr (ms, sk1), lg1)"
    "d1 = (if ms \<noteq> [] then setitem pid (py_sum ms) d0 else d0)"
    by blast
  from pr(1) assms(4) have "prop' = prop" by simp
  moreover from pr(3) eq s1 have "ms \<noteq> [] \<longrightarrow> map_of pids_to_mass pid = Some (py_sum ms)"
    by simp
  ultimately show ?thesis using pr(2) by blast
qed

lemma mass_breakdown_origin:
  assumes "fst (get_mass_breakdown model pid_eids stop) = Inr (pids_to_mass, mtm)"
    and "map_of pids_to_mass pid \<noteq> None"
  shows "\<exists>eids prop ms sk lg sk' lg'. (pid, eids) \<in> set pid_eids \<and>
           properties model pid = Some prop \<and>
           prop_masses model prop eids sk lg = (Inr (ms, sk'), lg') \<and> ms \<noteq> []"
proof -
  from mass_breakdown_loop [OF assms(1)] obtain sk lg where
    loop: "for_each_log (mass_prop_step model) pid_eids ([], {}) [] = (Inr (pids_to_mass, sk), lg)"
    by blast
  have "\<exists>x\<in>set pid_eids. \<exists>s0 lg0 s1 lg1. mass_prop_step model x s0 lg0 = (Inr s1, lg1) \<and>
          \<not> map_of (fst s0) pid \<noteq> None \<and> map_of (fst s1) pid \<noteq> None"
    by (rule for_each_log_origin [OF loop]) (use assms(2) in simp_all)
  then obtain x s0 lg0 s1 lg1 where x: "x \<in> set pid_eids"
    and st: "mass_prop_step model x s0 lg0 = (Inr s1, lg1)"
    and n0: "map_of (fst s0) pid = None" and n1: "map_of (fst s1) pid \<noteq> None"
    by auto
  obtain p es where xp: "x = (p, es)" by (cases x)
  obtain d0 sk0 where s0: "s0 = (d0, sk0)" by (cases s0)
  obtain d1 sk1 where s1: "s1 = (d1, sk1)" by (cases s1)
  from mass_prop_step_Inr [OF st [unfolded xp s0 s1]] obtain pp ms where
    pr: "properties model p = Some pp"
    "prop_masses model pp es sk0 lg0 = (Inr (ms, sk1), lg1)"
    "d1 = (if ms \<noteq> [] then setitem p (py_sum ms) d0 else d0)"
    by blast
  from pr(3) n0 n1 s0 s1 have "ms \<noteq> []" "p = pid"
    by (auto split: if_splits)
  with x xp pr show ?thesis by blast
qed

subsection \<open>The branches of the chain on the property type\<close>

lemma resolved_length:
  assumes "map (elements model) eids = map Some elems" and "map g elems = map Some vals"
  shows "length vals = length eids"
  using assms by (metis length_map)

lemma prop_masses_shell:
  assumes "prop_type prop = ''PSHELL'' \<or> prop_type prop = ''PSHEAR''"
    and "prop_t prop = Some t" "prop_nsm prop = Some nsm" "prop_Rho prop = Some rho"
    and "map (elements model) eids = map Some elems"
    and "map elem_Area elems = map Some areas"
  shows "prop_masses model prop eids sk lg =
           (Inr (map (\<lambda>area. area * (rho * t + nsm)) areas, sk), lg)"
proof -
  have "for_each (mass_shell_step model t nsm rho) eids [] =
          Inr ([] @ map (\<lambda>area. area * (rho * t + nsm)) areas)"
    by (rule for_each_collect [where g = elem_Area, OF _ assms(5,6)])
      (simp add: mass_shell_step_def)
  with assms(1-4) show ?thesis
    by (auto simp: prop_masses_def line_props_def solid_props_def properties_to_skip_def)
qed

lemma prop_masses_comp:
  assumes "prop_type prop = ''PCOMP'' \<or> prop_type prop = ''PCOMPG''"
    and "map (elements model) eids = map Some elems"
    and "map elem_Mass elems = map Some ms"
  shows "prop_masses model prop eids sk lg = (Inr (ms, sk), lg)"
proof -
  have "for_each (mass_comp_step model) eids [] = Inr ([] @ map (\<lambda>m. m) ms)"
    by (rule for_each_collect [where g = elem_Mass, OF _ assms(2,3)])
      (simp add: mass_comp_step_def)
  with assms(1) show ?thesis
    by (auto simp: prop_masses_def)
qed

lemma line_props_not_shell:
  assumes "ty \<in> set line_props"
  shows "ty \<noteq> ''PSHELL''" "ty \<noteq> ''PCOMP''" "ty \<noteq> ''PCOMPG''"
  using assms by (auto simp: line_props_def)

lemma prop_masses_line:
  assumes "prop_type prop \<in> set line_props"
    and "prop_nsm prop = Some nsm" "prop_Rho prop = Some rho" "prop_Area prop = Some A"
    and "map (elements model) eids = map Some elems"
    and "map elem_Length elems = map Some lengths"
  shows "prop_masses model prop eids sk lg =
           (Inr (map (\<lambda>length. A * (rho * length + nsm)) lengths, sk), lg)"
proof -
  have "for_each (mass_line_step model prop nsm rho) eids [] =
          Inr ([] @ map (\<lambda>length. A * (rho * length + nsm)) lengths)"
    by (rule for_each_collect [where g = elem_Length, OF _ assms(5,6)])
      (simp add: mass_line_step_def assms(4))
  with assms(1-3) line_props_not_shell [OF assms(1)] show ?thesis
    by (simp add: prop_masses_def)
qed

lemma prop_volumes_line:
  assumes "prop_type prop \<in> set line_props"
    and "prop_Area prop = Some A"
    and "map (elements model) eids = map Some elems"
    and "map elem_Length elems = map Some lengths"
  shows "prop_volumes model prop eids sk lg =
           (Inr (map (\<lambda>length. A * length) lengths, sk), lg)"
proof -
  have "for_each (append_Length_step model) eids [] = Inr ([] @ map (\<lambda>l. l) lengths)"
    by (rule for_each_collect [where g = elem_Length, OF _ assms(3,4)])
      (simp add: append_Length_step_def)
  with assms(1,2) line_props_not_shell [OF assms(1)] show ?thesis
    by (simp add: prop_volumes_def)
qed

subsection \<open>The skipped categories\<close>

lemma prop_areas_skip:
  assumes "prop_type prop \<in> set skip_props"
  shows "prop_areas model sba prop eids = Inr []"
proof -
  from assms have "prop_type prop \<notin> set shell_props" "prop_type prop \<notin> set line_props"
    by (auto simp: skip_props_def shell_props_def line_props_def)
  with assms show ?thesis by (simp add: prop_areas_def)
qed

lemma no_volume_other:
  assumes "ty \<in> set no_volume"
  shows "ty \<noteq> ''PSHELL''" "ty \<noteq> ''PCOMP''" "ty \<noteq> ''PCOMPG''" "ty \<noteq> ''PSHEAR''"
    "ty \<notin> set line_props" "ty \<notin> set solid_props"
  using assms by (auto simp: no_volume_def line_props_def solid_props_def)

lemma prop_volumes_skip:
  assumes "prop_type prop \<in> set no_volume"
  shows "prop_volumes model prop eids sk lg = (Inr ([], sk), lg)"
  using assms no_volume_other [OF assms] by (simp add: prop_volumes_def)

lemma properties_to_skip_eq: "properties_to_skip = no_volume"
  by (simp add: properties_to_skip_def no_volume_def)

lemma prop_masses_skip:
  assumes "prop_type prop \<in> set properties_to_skip"
  shows "prop_masses model prop eids sk lg = (Inr ([], sk), lg)"
  using assms no_volume_other [OF assms [unfolded properties_to_skip_eq]]
  by (simp add: prop_masses_def)

subsection \<open>A property type outside every list\<close>

lemma prop_areas_unclassified:
  assumes "prop_type prop \<notin> set shell_props" "prop_type prop \<notin> set line_props"
    "prop_type prop \<notin> set skip_props"
  shows "prop_areas model sba prop eids = Inl (NotImplementedError prop)"
  using assms by (simp add: prop_areas_def)

lemma prop_volumes_unclassified:
  assumes "prop_type prop \<notin> set shell_props" "prop_type prop \<notin> set line_props"
    "prop_type prop \<notin> set solid_props" "prop_type prop \<notin> set no_volume"
  shows "prop_volumes model prop eids sk lg = (Inl (NotImplementedError prop), lg)"
  using assms by (simp add: prop_volumes_def shell_props_def)

lemma prop_masses_unclassified:
  assumes "prop_type prop \<notin> set shell_props" "prop_type prop \<notin> set line_props"
    "prop_type prop \<notin> set solid_props" "prop_type prop \<notin> set properties_to_skip"
  shows "prop_masses model prop eids sk lg = (Inl (NotImplementedError prop), lg)"
  using assms by (simp add: prop_masses_def shell_props_def)

lemma area_breakdown_reached:
  assumes "get_area_breakdown model pre sba = Inr d"
    and "properties model pid = Some prop"
    and "prop_areas model sba prop eids = Inl e"
  shows "get_area_breakdown model (pre @ (pid, eids) # post) sba = Inl e"
  using assms by (simp add: get_area_breakdown_def for_each_append area_prop_step_def)

lemma volume_breakdown_reached:
  assumes "fst (get_volume_breakdown model pre) = Inr d"
    and "properties model pid = Some prop"
    and "\<And>sk lg. fst (prop_volumes model prop eids sk lg) = Inl e"
  shows "fst (get_volume_breakdown model (pre @ (pid, eids) # post)) = Inl e"
proof -
  from volume_breakdown_loop [OF assms(1)] obtain sk lg where
    loop: "for_each_log (volume_prop_step model) pre ([], {}) [] = (Inr (d, sk), lg)"
    by blast
  obtain lg' where "prop_volumes model prop eids sk lg = (Inl e, lg')"
    using assms(3) [of sk lg] by (cases "prop_volumes model prop eids sk lg") auto
  with loop assms(2) show ?thesis
    by (simp add: get_volume_breakdown_def for_each_log_append volume_prop_step_def)
qed

lemma mass_breakdown_reached:
  assumes "fst (get_mass_breakdown model pre False) = Inr (d, mtm)"
    and "properties model pid = Some prop"
    and "\<And>sk lg. fst (prop_masses model prop eids sk lg) = Inl e"
  shows "fst (get_mass_breakdown model (pre @ (pid, eids) # post) stop) = Inl e"
proof -
  from mass_breakdown_loop [OF assms(1)] obtain sk lg where
    ms: "for_each mass_type_step (masses model) [] = Inr mtm"
    and loop: "for_each_log (mass_prop_step model) pre ([], {}) [] = (Inr (d, sk), lg)"
    by blast
  obtain lg' where "prop_masses model prop eids sk lg = (Inl e, lg')"
    using assms(3) [of sk lg] by (cases "prop_masses model prop eids sk lg") auto
  with ms loop assms(2) show ?thesis
    by (simp add: get_mass_breakdown_def for_each_log_append mass_prop_step_def)
qed

lemma area_breakdown_raises:
  assumes "(pid, eids) \<in> set pid_eids"
    and "properties model pid = Some prop"
    and "prop_areas model sba prop eids = Inl e"
  shows "\<exists>e'. get_area_breakdown model pid_eids sba = Inl e'"
  unfolding get_area_breakdown_def
  by (rule for_each_raises [OF assms(1)]) (simp add: area_prop_step_def assms(2,3))

lemma volume_breakdown_raises:
  assumes "(pid, eids) \<in> set pid_eids"
    and "properties model pid = Some prop"
    and "\<And>sk lg. prop_volumes model prop eids sk lg = (Inl e, lg)"
  shows "\<exists>e'. fst (get_volume_breakdown model pid_eids) = Inl e'"
proof -
  have "\<exists>e' lg'. for_each_log (volume_prop_step model) pid_eids ([], {}) [] = (Inl e', lg')"
    by (rule for_each_log_raises [OF assms(1)])
      (auto simp: volume_prop_step_def assms(2,3))
  then show ?thesis by (auto simp: get_volume_breakdown_def)
qed

lemma mass_breakdown_raises:
  assumes "(pid, eids) \<in> set pid_eids"
    and "properties model pid = Some prop"
    and "\<And>sk lg. prop_masses model prop eids sk lg = (Inl e, lg)"
  shows "\<exists>e'. fst (get_mass_breakdown model pid_eids stop) = Inl e'"
proof -
  have "\<exists>e' lg'. for_each_log (mass_prop_step model) pid_eids ([], {}) [] = (Inl e', lg')"
    by (rule for_each_log_raises [OF assms(1)])
      (auto simp: mass_prop_step_def assms(2,3))
  then show ?thesis by (auto simp: get_mass_breakdown_def split: sum.splits)
qed

subsection \<open>The solid branch: what is summed and what is logged\<close>

lemma volume_solid_step_simps:
  "elements model eid = None \<Longrightarrow>
     volume_solid_step model prop eid (acc, sk) lg = (Inl KeyError, lg)"
  "elements model eid = Some el \<Longrightarrow> elem_type el \<in> set solid_elems \<Longrightarrow>
     elem_Volume el = None \<Longrightarrow>
     volume_solid_step model prop eid (acc, sk) lg = (Inl AttributeError, lg)"
  "elements model eid = Some el \<Longrightarrow> elem_type el \<in> set solid_elems \<Longrightarrow>
     elem_Volume el = Some v \<Longrightarrow>
     volume_solid_step model prop eid (acc, sk) lg = (Inr (acc @ [v], sk), lg)"
  "elements model eid = Some el \<Longrightarrow> elem_type el \<notin> set solid_elems \<Longrightarrow>
     (elem_type el, prop_type prop) \<in> sk \<Longrightarrow>
     volume_solid_step model prop eid (acc, sk) lg = (Inr (acc, sk), lg)"
  "elements model eid = Some el \<Longrightarrow> elem_type el \<notin> set solid_elems \<Longrightarrow>
     (elem_type el, prop_type prop) \<notin> sk \<Longrightarrow>
     volume_solid_step model prop eid (acc, sk) lg =
       (Inr (acc, insert (elem_type el, prop_type prop) sk),
        lg @ [SkippingVolume (elem_type el, prop_type prop)])"
  by (simp_all add: volume_solid_step_def Let_def)

lemma mass_solid_step_simps:
  "elements model eid = None \<Longrightarrow>
     mass_solid_step model prop rho eid (acc, sk) lg = (Inl KeyError, lg)"
  "elements model eid = Some el \<Longrightarrow> elem_type el \<in> set solid_elems \<Longrightarrow>
     elem_Volume el = None \<Longrightarrow>
     mass_solid_step model prop rho eid (acc, sk) lg = (Inl AttributeError, lg)"
  "elements model eid = Some el \<Longrightarrow> elem_type el \<in> set solid_elems \<Longrightarrow>
     elem_Volume el = Some v \<Longrightarrow>
     mass_solid_step model prop rho eid (acc, sk) lg = (Inr (acc @ [rho * v], sk), lg)"
  "elements model eid = Some el \<Longrightarrow> elem_type el \<notin> set solid_elems \<Longrightarrow>
     (elem_type el, prop_type prop) \<in> sk \<Longrightarrow>
     mass_solid_step model prop rho eid (acc, sk) lg = (Inr (acc, sk), lg)"
  "elements model eid = Some el \<Longrightarrow> elem_type el \<notin> set solid_elems \<Longrightarrow>
     (elem_type el, prop_type prop) \<notin> sk \<Longrightarrow>
     mass_solid_step model prop rho eid (acc, sk) lg =
       (Inr (acc, insert (elem_type el, prop_type prop) sk),
        lg @ [SkippingMass (elem_type el, prop_type prop)])"
  by (simp_all add: mass_solid_step_def Let_def)

lemma volume_solid_loop:
  assumes "map (elements model) eids = map Some elems"
    and "map elem_Volume (filter (\<lambda>e. elem_type e \<in> set solid_elems) elems) = map Some vols"
  shows "\<exists>sk' lg'. for_each_log (volume_solid_step model prop) eids (acc, sk) lg =
           (Inr (acc @ vols, sk'), lg')"
  using assms
proof (induction eids arbitrary: elems vols acc sk lg)
  case Nil
  then show ?case by simp
next
  case (Cons eid eids)
  from Cons.prems(1) obtain el els where els: "elems = el # els"
    "elements model eid = Some el" "map (elements model) eids = map Some els"
    by (cases elems) auto
  show ?case
  proof (cases "elem_type el \<in> set solid_elems")
    case True
    with Cons.prems(2) els obtain v vs where vs: "vols = v # vs" "elem_Volume el = Some v"
      "map elem_Volume (filter (\<lambda>e. elem_type e \<in> set solid_elems) els) = map Some vs"
      by (cases vols) auto
    from Cons.IH [OF els(3) vs(3), of "acc @ [v]" sk lg] els vs True
    show ?thesis by (simp add: volume_solid_step_simps)
  next
    case False
    with Cons.prems(2) els
    have vs: "map elem_Volume (filter (\<lambda>e. elem_type e \<in> set solid_elems) els) = map Some vols"
      by simp
    show ?thesis
    proof (cases "(elem_type el, prop_type prop) \<in> sk")
      case True
      from Cons.IH [OF els(3) vs, of acc sk lg] els False True
      show ?thesis by (simp add: volume_solid_step_simps)
    next
      case nin: False
      from Cons.IH [OF els(3) vs, of acc "insert (elem_type el, prop_type prop) sk"
          "lg @ [SkippingVolume (elem_type el, prop_type prop)]"] els False nin
      show ?thesis by (simp add: volume_solid_step_simps)
    qed
  qed
qed

lemma mass_solid_loop:
  assumes "map (elements model) eids = map Some elems"
    and "map elem_Volume (filter (\<lambda>e. elem_type e \<in> set solid_elems) elems) = map Some vols"
  shows "\<exists>sk' lg'. for_each_log (mass_solid_step model prop rho) eids (acc, sk) lg =
           (Inr (acc @ map (\<lambda>v. rho * v) vols, sk'), lg')"
  using assms
proof (induction eids arbitrary: elems vols acc sk lg)
  case Nil
  then show ?case by simp
next
  case (Cons eid eids)
  from Cons.prems(1) obtain el els where els: "elems = el # els"
    "elements model eid = Some el" "map (elements model) eids = map Some els"
    by (cases elems) auto
  show ?case
  proof (cases "elem_type el \<in> set solid_elems")
    case True
    with Cons.prems(2) els obtain v vs where vs: "vols = v # vs" "elem_Volume el = Some v"
      "map elem_Volume (filter (\<lambda>e. elem_type e \<in> set solid_elems) els) = map Some vs"
      by (cases vols) auto
    from Cons.IH [OF els(3) vs(3), of "acc @ [rho * v]" sk lg] els vs True
    show ?thesis by (simp add: mass_solid_step_simps)
  next
    case False
    with Cons.prems(2) els
    have vs: "map elem_Volume (filter (\<lambda>e. elem_type e \<in> set solid_elems) els) = map Some vols"
      by simp
    show ?thesis
    proof (cases "(elem_type el, prop_type prop) \<in> sk")
      case True
      from Cons.IH [OF els(3) vs, of acc sk lg] els False True
      show ?thesis by (simp add: mass_solid_step_simps)
    next
      case nin: False
      from Cons.IH [OF els(3) vs, of acc "insert (elem_type el, prop_type prop) sk"
          "lg @ [SkippingMass (elem_type el, prop_type prop)]"] els False nin
      show ?thesis by (simp add: mass_solid_step_simps)
    qed
  qed
qed

lemma solid_props_other:
  assumes "ty \<in> set solid_props"
  shows "ty \<noteq> ''PSHELL''" "ty \<noteq> ''PCOMP''" "ty \<noteq> ''PCOMPG''" "ty \<notin> set line_props"
  using assms by (auto simp: solid_props_def line_props_def)

lemma prop_volumes_solid:
  assumes "prop_type prop \<in> set solid_props"
    and "map (elements model) eids = map Some elems"
    and "map elem_Volume (filter (\<lambda>e. elem_type e \<in> set solid_elems) elems) = map Some vols"
  shows "\<exists>sk' lg'. prop_volumes model prop eids sk lg = (Inr (vols, sk'), lg')"
  using volume_solid_loop [OF assms(2,3), of "prop" "[]" sk lg] assms(1)
    solid_props_other [OF assms(1)]
  by (simp add: prop_volumes_def)

lemma prop_masses_solid:
  assumes "prop_type prop \<in> set solid_props"
    and "prop_Rho prop = Some rho"
    and "map (elements model) eids = map Some elems"
    and "map elem_Volume (filter (\<lambda>e. elem_type e \<in> set solid_elems) elems) = map Some vols"
  shows "\<exists>sk' lg'. prop_masses model prop eids sk lg =
           (Inr (map (\<lambda>v. rho * v) vols, sk'), lg')"
  using mass_solid_loop [OF assms(3,4), of "prop" rho "[]" sk lg] assms(1,2)
    solid_props_other [OF assms(1)]
  by (simp add: prop_masses_def)

lemma volume_solid_step_inv:
  assumes "distinct lg \<and> set lg = SkippingVolume ` sk"
    and "volume_solid_step model pr eid (acc, sk) lg = (r, lg')"
  shows "case r of Inl e \<Rightarrow> distinct lg'
         | Inr s' \<Rightarrow> distinct lg' \<and> set lg' = SkippingVolume ` snd s'"
proof (cases "elements model eid")
  case None
  with assms show ?thesis by (auto simp: volume_solid_step_simps)
next
  case (Some el)
  show ?thesis
  proof (cases "elem_type el \<in> set solid_elems")
    case True
    with Some assms show ?thesis
      by (cases "elem_Volume el") (auto simp: volume_solid_step_simps)
  next
    case False
    with Some assms show ?thesis
      by (cases "(elem_type el, prop_type pr) \<in> sk")
        (auto simp: volume_solid_step_simps)
  qed
qed

lemma mass_solid_step_inv:
  assumes "distinct lg \<and> set lg = SkippingMass ` sk"
    and "mass_solid_step model pr rho eid (acc, sk) lg = (r, lg')"
  shows "case r of Inl e \<Rightarrow> distinct lg'
         | Inr s' \<Rightarrow> distinct lg' \<and> set lg' = SkippingMass ` snd s'"
proof (cases "elements model eid")
  case None
  with assms show ?thesis by (auto simp: mass_solid_step_simps)
next
  case (Some el)
  show ?thesis
  proof (cases "elem_type el \<in> set solid_elems")
    case True
    with Some assms show ?thesis
      by (cases "elem_Volume el") (auto simp: mass_solid_step_simps)
  next
    case False
    with Some assms show ?thesis
      by (cases "(elem_type el, prop_type pr) \<in> sk")
        (auto simp: mass_solid_step_simps)
  qed
qed

lemma volume_solid_loop_inv:
  assumes "for_each_log (volume_solid_step model pr) eids s lg = (r, lg')"
    and "distinct lg \<and> set lg = SkippingVolume ` snd s"
  shows "case r of Inl e \<Rightarrow> distinct lg'
         | Inr s' \<Rightarrow> distinct lg' \<and> set lg' = SkippingVolume ` snd s'"
proof (rule for_each_log_inv [OF assms(1),
      where P = "\<lambda>s lg. distinct lg \<and> set lg = SkippingVolume ` snd s"])
  show "distinct lg \<and> set lg = SkippingVolume ` snd s" by (rule assms(2))
  show "\<forall>x\<in>set eids. \<forall>s lg r lg'.
      distinct lg \<and> set lg = SkippingVolume ` snd s \<longrightarrow>
      volume_solid_step model pr x s lg = (r, lg') \<longrightarrow>
      (case r of Inl e \<Rightarrow> distinct lg'
       | Inr s' \<Rightarrow> distinct lg' \<and> set lg' = SkippingVolume ` snd s')"
  proof (intro ballI allI impI)
    fix x s lg r lg'
    assume i: "distinct lg \<and> set lg = SkippingVolume ` snd s"
      and st: "volume_solid_step model pr x s lg = (r, lg')"
    obtain acc sk where s: "s = (acc, sk)" by (cases s)
    from volume_solid_step_inv [OF i [unfolded s snd_conv] st [unfolded s]]
    show "case r of Inl e \<Rightarrow> distinct lg'
       | Inr s' \<Rightarrow> distinct lg' \<and> set lg' = SkippingVolume ` snd s'" .
  qed
qed

lemma mass_solid_loop_inv:
  assumes "for_each_log (mass_solid_step model pr rho) eids s lg = (r, lg')"
    and "distinct lg \<and> set lg = SkippingMass ` snd s"
  shows "case r of Inl e \<Rightarrow> distinct lg'
         | Inr s' \<Rightarrow> distinct lg' \<and> set lg' = SkippingMass ` snd s'"
proof (rule for_each_log_inv [OF assms(1),
      where P = "\<lambda>s lg. distinct lg \<and> set lg = SkippingMass ` snd s"])
  show "distinct lg \<and> set lg = SkippingMass ` snd s" by (rule assms(2))
  show "\<forall>x\<in>set eids. \<forall>s lg r lg'.
      distinct lg \<and> set lg = SkippingMass ` snd s \<longrightarrow>
      mass_solid_step model pr rho x s lg = (r, lg') \<longrightarrow>
      (case r of Inl e \<Rightarrow> distinct lg'
       | Inr s' \<Rightarrow> distinct lg' \<and> set lg' = SkippingMass ` snd s')"
  proof (intro ballI allI impI)
    fix x s lg r lg'
    assume i: "distinct lg \<and> set lg = SkippingMass ` snd s"
      and st: "mass_solid_step model pr rho x s lg = (r, lg')"
    obtain acc sk where s: "s = (acc, sk)" by (cases s)
    from mass_solid_step_inv [OF i [unfolded s snd_conv] st [unfolded s]]
    show "case r of Inl e \<Rightarrow> distinct lg'
       | Inr s' \<Rightarrow> distinct lg' \<and> set lg' = SkippingMass ` snd s'" .
  qed
qed

lemma prop_volumes_cases:
  "(\<exists>e. prop_volumes model pr eids sk lg = (Inl e, lg)) \<or>
   (\<exists>v. prop_volumes model pr eids sk lg = (Inr (v, sk), lg)) \<or>
   prop_volumes model pr eids sk lg =
     for_each_log (volume_solid_step model pr) eids ([], sk) lg"
  by (simp add: prop_volumes_def bind_e_def split: sum.splits)

lemma prop_masses_cases:
  "(\<exists>e. prop_masses model pr eids sk lg = (Inl e, lg)) \<or>
   (\<exists>v. prop_masses model pr eids sk lg = (Inr (v, sk), lg)) \<or>
   (\<exists>rho. prop_masses model pr eids sk lg =
     for_each_log (mass_solid_step model pr rho) eids ([], sk) lg)"
  by (simp add: prop_masses_def bind_e_def attr_def split: sum.splits option.splits) blast

lemma prop_volumes_inv:
  assumes "distinct lg \<and> set lg = SkippingVolume ` sk"
    and "prop_volumes model pr eids sk lg = (r, lg')"
  shows "case r of Inl e \<Rightarrow> distinct lg'
         | Inr s' \<Rightarrow> distinct lg' \<and> set lg' = SkippingVolume ` snd s'"
  using prop_volumes_cases [of model pr eids sk lg]
proof (elim disjE exE)
  fix e assume "prop_volumes model pr eids sk lg = (Inl e, lg)"
  with assms show ?thesis by auto
next
  fix v assume "prop_volumes model pr eids sk lg = (Inr (v, sk), lg)"
  with assms show ?thesis by auto
next
  assume "prop_volumes model pr eids sk lg =
     for_each_log (volume_solid_step model pr) eids ([], sk) lg"
  with assms(2) have "for_each_log (volume_solid_step model pr) eids ([], sk) lg = (r, lg')"
    by simp
  from volume_solid_loop_inv [OF this] assms(1) show ?thesis by simp
qed

lemma prop_masses_inv:
  assumes "distinct lg \<and> set lg = SkippingMass ` sk"
    and "prop_masses model pr eids sk lg = (r, lg')"
  shows "case r of Inl e \<Rightarrow> distinct lg'
         | Inr s' \<Rightarrow> distinct lg' \<and> set lg' = SkippingMass ` snd s'"
  using prop_masses_cases [of model pr eids sk lg]
proof (elim disjE exE)
  fix e assume "prop_masses model pr eids sk lg = (Inl e, lg)"
  with assms show ?thesis by auto
next
  fix v assume "prop_masses model pr eids sk lg = (Inr (v, sk), lg)"
  with assms show ?thesis by auto
next
  fix rho assume "prop_masses model pr eids sk lg =
     for_each_log (mass_solid_step model pr rho) eids ([], sk) lg"
  with assms(2) have "for_each_log (mass_solid_step model pr rho) eids ([], sk) lg = (r, lg')"
    by simp
  from mass_solid_loop_inv [OF this] assms(1) show ?thesis by simp
qed

lemma volume_prop_step_inv:
  assumes "distinct lg \<and> set lg = SkippingVolume ` snd s"
    and "volume_prop_step model x s lg = (r, lg')"
  shows "case r of Inl e \<Rightarrow> distinct lg'
         | Inr s' \<Rightarrow> distinct lg' \<and> set lg' = SkippingVolume ` snd s'"
proof -
  obtain pid eids where x: "x = (pid, eids)" by (cases x)
  obtain d sk where s: "s = (d, sk)" by (cases s)
  show ?thesis
  proof (cases "properties model pid")
    case None
    with assms x s show ?thesis by (auto simp: volume_prop_step_def)
  next
    case (Some pr)
    obtain r1 lg1 where pv: "prop_volumes model pr eids sk lg = (r1, lg1)"
      by (cases "prop_volumes model pr eids sk lg")
    from prop_volumes_inv [OF _ pv] assms(1) s
    have i: "case r1 of Inl e \<Rightarrow> distinct lg1
         | Inr s' \<Rightarrow> distinct lg1 \<and> set lg1 = SkippingVolume ` snd s'" by simp
    show ?thesis
    proof (cases r1)
      case (Inl e)
      with assms(2) x s Some pv i show ?thesis by (auto simp: volume_prop_step_def)
    next
      case (Inr vs)
      obtain v sk1 where vs: "vs = (v, sk1)" by (cases vs)
      from assms(2) x s Some pv i Inr vs show ?thesis
        by (auto simp: volume_prop_step_def)
    qed
  qed
qed

lemma mass_prop_step_inv:
  assumes "distinct lg \<and> set lg = SkippingMass ` snd s"
    and "mass_prop_step model x s lg = (r, lg')"
  shows "case r of Inl e \<Rightarrow> distinct lg'
         | Inr s' \<Rightarrow> distinct lg' \<and> set lg' = SkippingMass ` snd s'"
proof -
  obtain pid eids where x: "x = (pid, eids)" by (cases x)
  obtain d sk where s: "s = (d, sk)" by (cases s)
  show ?thesis
  proof (cases "properties model pid")
    case None
    with assms x s show ?thesis by (auto simp: mass_prop_step_def)
  next
    case (Some pr)
    obtain r1 lg1 where pv: "prop_masses model pr eids sk lg = (r1, lg1)"
      by (cases "prop_masses model pr eids sk lg")
    from prop_masses_inv [OF _ pv] assms(1) s
    have i: "case r1 of Inl e \<Rightarrow> distinct lg1
         | Inr s' \<Rightarrow> distinct lg1 \<and> set lg1 = SkippingMass ` snd s'" by simp
    show ?thesis
    proof (cases r1)
      case (Inl e)
      with assms(2) x s Some pv i show ?thesis by (auto simp: mass_prop_step_def)
    next
      case (Inr vs)
      obtain v sk1 where vs: "vs = (v, sk1)" by (cases vs)
      from assms(2) x s Some pv i Inr vs show ?thesis
        by (auto simp: mass_prop_step_def)
    qed
  qed
qed

lemma volume_breakdown_log_distinct: "distinct (snd (get_volume_breakdown model pid_eids))"
proof -
  obtain r lg where loop:
    "for_each_log (volume_prop_step model) pid_eids ([], {}) [] = (r, lg)"
    by (cases "for_each_log (volume_prop_step model) pid_eids ([], {}) []")
  have "case r of Inl e \<Rightarrow> distinct lg
         | Inr s' \<Rightarrow> distinct lg \<and> set lg = SkippingVolume ` snd s'"
    by (rule for_each_log_inv [OF loop,
          where P = "\<lambda>s lg. distinct lg \<and> set lg = SkippingVolume ` snd s"])
      (use volume_prop_step_inv in auto)
  then have "distinct lg" by (cases r) auto
  with loop show ?thesis
    by (auto simp: get_volume_breakdown_def split: sum.splits prod.splits)
qed

lemma mass_breakdown_log_distinct: "distinct (snd (get_mass_breakdown model pid_eids stop))"
proof -
  obtain r lg where loop:
    "for_each_log (mass_prop_step model) pid_eids ([], {}) [] = (r, lg)"
    by (cases "for_each_log (mass_prop_step model) pid_eids ([], {}) []")
  have "case r of Inl e \<Rightarrow> distinct lg
         | Inr s' \<Rightarrow> distinct lg \<and> set lg = SkippingMass ` snd s'"
    by (rule for_each_log_inv [OF loop,
          where P = "\<lambda>s lg. distinct lg \<and> set lg = SkippingMass ` snd s"])
      (use mass_prop_step_inv in auto)
  then have "distinct lg" by (cases r) auto
  with loop show ?thesis
    by (auto simp: get_mass_breakdown_def split: sum.splits prod.splits)
qed

lemma distinct_keys_value:
  assumes "distinct (map fst xs)" and "(k, v) \<in> set xs" and "(k, v') \<in> set xs"
  shows "v = v'"
  using assms by (meson eq_key_imp_eq_value)

subsection \<open>The loop over the point masses and the final check\<close>

lemma mass_type_step_nonempty:
  assumes "mass_type_step x d = Inr d'"
  shows "d' \<noteq> []"
  using assms
  by (cases x) (auto simp: mass_type_step_def bind_e_eq_Inr split: option.splits)

lemma for_each_mass_type_nonempty:
  assumes "for_each mass_type_step ms d = Inr d'" and "ms \<noteq> [] \<or> d \<noteq> []"
  shows "d' \<noteq> []"
  using assms
proof (induction ms arbitrary: d)
  case Nil
  then show ?case by simp
next
  case (Cons x xs)
  from Cons.prems(1) obtain d1 where st: "mass_type_step x d = Inr d1"
    and rest: "for_each mass_type_step xs d1 = Inr d'"
    by (auto split: sum.splits)
  from mass_type_step_nonempty [OF st] have "xs \<noteq> [] \<or> d1 \<noteq> []" by simp
  from Cons.IH [OF rest this] show ?case .
qed

lemma mass_loop_no_summands:
  assumes "\<forall>(pid, eids)\<in>set pid_eids. \<exists>p. properties model pid = Some p \<and>
             (\<forall>sk lg. \<exists>sk' lg'. prop_masses model p eids sk lg = (Inr ([], sk'), lg'))"
  shows "\<exists>sk' lg'. for_each_log (mass_prop_step model) pid_eids (d, sk) lg = (Inr (d, sk'), lg')"
  using assms
proof (induction pid_eids arbitrary: sk lg)
  case Nil
  then show ?case by simp
next
  case (Cons x xs)
  obtain pid eids where x: "x = (pid, eids)" by (cases x)
  from Cons.prems x obtain p where p: "properties model pid = Some p"
    and e: "\<forall>sk lg. \<exists>sk' lg'. prop_masses model p eids sk lg = (Inr ([], sk'), lg')"
    by auto
  from e obtain sk1 lg1 where "prop_masses model p eids sk lg = (Inr ([], sk1), lg1)"
    by blast
  with p x have st: "mass_prop_step model x (d, sk) lg = (Inr (d, sk1), lg1)"
    by (simp add: mass_prop_step_def)
  from Cons.prems have "\<forall>(pid, eids)\<in>set xs. \<exists>p. properties model pid = Some p \<and>
             (\<forall>sk lg. \<exists>sk' lg'. prop_masses model p eids sk lg = (Inr ([], sk'), lg'))"
    by simp
  from Cons.IH [OF this, of sk1 lg1] st show ?case by simp
qed

lemma for_each_log_error:
  assumes "for_each_log body xs s lg = (Inl e, lg')"
  shows "\<exists>x\<in>set xs. \<exists>s0 lg0. body x s0 lg0 = (Inl e, lg')"
  using assms
proof (induction xs arbitrary: s lg)
  case Nil
  then show ?case by simp
next
  case (Cons y ys)
  obtain r1 lg1 where b: "body y s lg = (r1, lg1)" by (cases "body y s lg")
  show ?case
  proof (cases r1)
    case (Inl e1)
    with b Cons.prems show ?thesis by auto
  next
    case (Inr s1)
    with b Cons.prems have "for_each_log body ys s1 lg1 = (Inl e, lg')" by simp
    from Cons.IH [OF this] show ?thesis by auto
  qed
qed

lemma for_each_error:
  assumes "for_each body xs s = Inl e"
  shows "\<exists>x\<in>set xs. \<exists>s0. body x s0 = Inl e"
proof -
  have "for_each_log (\<lambda>x s lg. (body x s, lg)) xs s [] = (Inl e, [])"
    using assms by (simp add: for_each_as_log)
  from for_each_log_error [OF this] show ?thesis by auto
qed

lemma bind_e_eq_Inl: "bind_e r f = Inl e \<longleftrightarrow> r = Inl e \<or> (\<exists>v. r = Inr v \<and> f v = Inl e)"
  by (cases r) simp_all

lemma getitem_eq_Inl: "getitem d k = Inl e \<Longrightarrow> e = KeyError"
  by (simp add: getitem_def split: option.splits)

lemma attr_eq_Inl: "attr a = Inl e \<Longrightarrow> e = AttributeError"
  by (simp add: attr_def split: option.splits)

lemma mass_step_errors:
  "mass_shell_step model t nsm rho eid acc = Inl e \<Longrightarrow> e = KeyError \<or> e = AttributeError"
  "mass_comp_step model eid acc = Inl e \<Longrightarrow> e = KeyError \<or> e = AttributeError"
  "mass_line_step model pr nsm rho eid acc = Inl e \<Longrightarrow> e = KeyError \<or> e = AttributeError"
  "mass_type_step x d = Inl e \<Longrightarrow> e = AttributeError"
  by (auto simp: mass_shell_step_def mass_comp_step_def mass_line_step_def mass_type_step_def
      bind_e_eq_Inl split: option.splits prod.splits dest: getitem_eq_Inl attr_eq_Inl)

lemma mass_solid_step_error:
  assumes "mass_solid_step model pr rho eid s lg = (Inl e, lg')"
  shows "e = KeyError \<or> e = AttributeError"
  using assms
  by (cases s)
    (auto simp: mass_solid_step_def Let_def split: sum.splits if_splits
      dest: getitem_eq_Inl attr_eq_Inl)

lemma mass_loops_errors:
  "for_each (mass_shell_step model t nsm rho) eids acc = Inl e \<Longrightarrow>
     e = KeyError \<or> e = AttributeError"
  "for_each (mass_comp_step model) eids acc = Inl e \<Longrightarrow> e = KeyError \<or> e = AttributeError"
  "for_each (mass_line_step model pr nsm rho) eids acc = Inl e \<Longrightarrow>
     e = KeyError \<or> e = AttributeError"
  "for_each mass_type_step ms d = Inl e \<Longrightarrow> e = AttributeError"
  "for_each_log (mass_solid_step model pr rho) eids s lg = (Inl e, lg') \<Longrightarrow>
     e = KeyError \<or> e = AttributeError"
  by (auto dest!: for_each_error for_each_log_error dest: mass_step_errors mass_solid_step_error)

lemma prop_masses_error:
  assumes "prop_masses model pr eids sk lg = (Inl e, lg')"
  shows "e = KeyError \<or> e = AttributeError \<or> e = NotImplementedError pr"
  using assms
  by (auto simp: prop_masses_def bind_e_eq_Inl split: if_splits sum.splits
      dest: attr_eq_Inl mass_loops_errors)

lemma mass_prop_step_error:
  assumes "mass_prop_step model x s lg = (Inl e, lg')"
  shows "\<forall>msg. e \<noteq> RuntimeError msg"
proof -
  obtain pid eids where x: "x = (pid, eids)" by (cases x)
  obtain d sk where s: "s = (d, sk)" by (cases s)
  show ?thesis
  proof (cases "properties model pid")
    case None
    with assms x s show ?thesis by (auto simp: mass_prop_step_def)
  next
    case (Some pr)
    obtain r1 lg1 where pm: "prop_masses model pr eids sk lg = (r1, lg1)"
      by (cases "prop_masses model pr eids sk lg")
    show ?thesis
    proof (cases r1)
      case (Inl e1)
      with assms x s Some pm have "e1 = e" by (simp add: mass_prop_step_def)
      with prop_masses_error [OF pm [unfolded Inl]] show ?thesis by auto
    next
      case (Inr v)
      with assms x s Some pm show ?thesis
        by (cases v) (simp add: mass_prop_step_def)
    qed
  qed
qed

subsection \<open>The example models evaluated\<close>

lemma bar_model_area:
  "get_area_breakdown (bar_model a1 a2) [(1, [1, 2])] False = Inr [(1, a2)]"
  by (simp add: get_area_breakdown_def area_prop_step_def prop_areas_def bar_model_def
      bar_prop_def bar_elem_def line_props_def shell_props_def area_line_step_def
      py_sum_def setitem_def)

lemma shell_model_mass:
  "get_mass_breakdown (shell_model ''PSHELL'') [(1, [1])] True = (Inr ([(1, 2)], []), [])"
  "get_mass_breakdown (shell_model ''PCOMP'') [(1, [1])] True = (Inr ([(1, 7)], []), [])"
  by (simp_all add: get_mass_breakdown_def mass_prop_step_def prop_masses_def shell_model_def
      shell_prop_def shell_elem_def mass_shell_step_def mass_comp_step_def
      py_sum_def setitem_def)

lemma bar_model_volume_mass:
  "get_volume_breakdown (bar_model a1 a2) [(1, [1, 2])] = (Inr [(1, 30)], [])"
  "get_mass_breakdown (bar_model a1 a2) [(1, [1, 2])] True = (Inr ([(1, 66)], []), [])"
  by (simp_all add: get_volume_breakdown_def volume_prop_step_def prop_volumes_def
      get_mass_breakdown_def mass_prop_step_def prop_masses_def mass_line_step_def
      append_Length_step_def bar_model_def bar_prop_def bar_elem_def line_props_def
      py_sum_def setitem_def)

lemma mixed_model_breakdowns:
  "get_area_breakdown mixed_model mixed_pid_eids sba = Inr [(1, 2)]"
  "get_volume_breakdown mixed_model mixed_pid_eids =
     (Inr [(1, 2), (3, 5)], [SkippingVolume (''CPYRAM'', ''PSOLID'')])"
  "get_mass_breakdown mixed_model mixed_pid_eids stop =
     (Inr ([(1, 2), (3, 15)], []), [SkippingMass (''CPYRAM'', ''PSOLID'')])"
  by (simp_all add: get_area_breakdown_def area_prop_step_def prop_areas_def
      get_volume_breakdown_def volume_prop_step_def prop_volumes_def volume_solid_step_def
      get_mass_breakdown_def mass_prop_step_def prop_masses_def mass_solid_step_def
      mass_shell_step_def append_Area_step_def
      mixed_model_def mixed_pid_eids_def shell_prop_def shell_elem_def bush_prop_def
      solid_prop_def solid_elem_def bush_elem_def
      shell_props_def line_props_def solid_props_def solid_elems_def skip_props_def
      no_volume_def properties_to_skip_def py_sum_def setitem_def Let_def)

lemma foo_model_pre:
  "get_area_breakdown foo_model [(1, [1])] sba = Inr [(1, 2)]"
  "fst (get_volume_breakdown foo_model [(1, [1])]) = Inr [(1, 2)]"
  "fst (get_mass_breakdown foo_model [(1, [1])] False) = Inr ([(1, 2)], [])"
  by (simp_all add: get_area_breakdown_def area_prop_step_def prop_areas_def
      get_volume_breakdown_def volume_prop_step_def prop_volumes_def
      get_mass_breakdown_def mass_prop_step_def prop_masses_def
      mass_shell_step_def append_Area_step_def
      foo_model_def shell_prop_def shell_elem_def shell_props_def py_sum_def setitem_def)

lemma no_mass_example:
  "fst (get_mass_breakdown mixed_model no_mass_pid_eids True) = Inl (RuntimeError no_mass_msg)"
  "fst (get_mass_breakdown mixed_model no_mass_pid_eids False) = Inr ([], [])"
  "fst (get_mass_breakdown point_mass_model [(2, [2])] True) = Inr ([], [(''CONM2'', 0)])"
  by (simp_all add: get_mass_breakdown_def mass_prop_step_def prop_masses_def
      mass_solid_step_def mass_type_step_def
      mixed_model_def no_mass_pid_eids_def point_mass_model_def conm2_def
      shell_prop_def bush_prop_def solid_prop_def solid_elem_def bush_elem_def
      line_props_def solid_props_def solid_elems_def properties_to_skip_def
      setitem_def Let_def)

subsection \<open>A selection extended by one item, and the value reported for an item\<close>

lemma area_breakdown_snoc:
  assumes "get_area_breakdown model pre sba = Inr d0"
    and "properties model pid = Some p"
    and "prop_areas model sba p eids = Inr vals"
  shows "get_area_breakdown model (pre @ [(pid, eids)]) sba =
           Inr (if vals \<noteq> [] then setitem pid (py_sum vals) d0 else d0)"
  using assms by (simp add: get_area_breakdown_def for_each_append area_prop_step_def)

lemma volume_breakdown_snoc:
  assumes "fst (get_volume_breakdown model pre) = Inr d0"
    and "properties model pid = Some p"
    and "\<And>sk lg. \<exists>sk' lg'. prop_volumes model p eids sk lg = (Inr (vals, sk'), lg')"
  shows "fst (get_volume_breakdown model (pre @ [(pid, eids)])) =
           Inr (if vals \<noteq> [] then setitem pid (py_sum vals) d0 else d0)"
proof -
  from volume_breakdown_loop [OF assms(1)] obtain sk lg where
    loop: "for_each_log (volume_prop_step model) pre ([], {}) [] = (Inr (d0, sk), lg)"
    by blast
  from assms(3) [of sk lg] obtain sk' lg' where
    "prop_volumes model p eids sk lg = (Inr (vals, sk'), lg')" by blast
  with loop assms(2) show ?thesis
    by (simp add: get_volume_breakdown_def for_each_log_append volume_prop_step_def)
qed

lemma mass_breakdown_snoc:
  assumes "fst (get_mass_breakdown model pre False) = Inr (d0, mtm)"
    and "properties model pid = Some p"
    and "\<And>sk lg. \<exists>sk' lg'. prop_masses model p eids sk lg = (Inr (vals, sk'), lg')"
    and "vals \<noteq> []"
  shows "fst (get_mass_breakdown model (pre @ [(pid, eids)]) stop) =
           Inr (setitem pid (py_sum vals) d0, mtm)"
proof -
  from mass_breakdown_loop [OF assms(1)] obtain sk lg where
    ms: "for_each mass_type_step (masses model) [] = Inr mtm"
    and loop: "for_each_log (mass_prop_step model) pre ([], {}) [] = (Inr (d0, sk), lg)"
    by blast
  from assms(3) [of sk lg] obtain sk' lg' where
    "prop_masses model p eids sk lg = (Inr (vals, sk'), lg')" by blast
  with ms loop assms(2,4) show ?thesis
    by (simp add: get_mass_breakdown_def for_each_log_append mass_prop_step_def)
qed

lemma area_breakdown_value:
  assumes r: "get_area_breakdown model pid_eids sba = Inr pids_to_area"
    and i: "(pid, eids) \<in> set pid_eids" and d: "distinct (map fst pid_eids)"
    and p: "properties model pid = Some p"
    and v: "prop_areas model sba p eids = Inr vals"
  shows "map_of pids_to_area pid = (if vals = [] then None else Some (py_sum vals))"
proof (cases "vals = []")
  case True
  have "map_of pids_to_area pid = None"
  proof (rule ccontr)
    assume "map_of pids_to_area pid \<noteq> None"
    from area_breakdown_origin [OF r this] p obtain eids' vs where
      o: "(pid, eids') \<in> set pid_eids" "prop_areas model sba p eids' = Inr vs" "vs \<noteq> []"
      by auto
    from distinct_keys_value [OF d i o(1)] have "eids' = eids" by simp
    with o(2,3) v True show False by simp
  qed
  with True show ?thesis by simp
next
  case False
  from area_breakdown_at [OF r i d p] v False show ?thesis by auto
qed

lemma volume_breakdown_value:
  assumes r: "fst (get_volume_breakdown model pid_eids) = Inr pids_to_volume"
    and i: "(pid, eids) \<in> set pid_eids" and d: "distinct (map fst pid_eids)"
    and p: "properties model pid = Some p"
    and v: "\<And>sk lg. \<exists>sk' lg'. prop_volumes model p eids sk lg = (Inr (vals, sk'), lg')"
  shows "map_of pids_to_volume pid = (if vals = [] then None else Some (py_sum vals))"
proof (cases "vals = []")
  case True
  have "map_of pids_to_volume pid = None"
  proof (rule ccontr)
    assume "map_of pids_to_volume pid \<noteq> None"
    from volume_breakdown_origin [OF r this] p obtain eids' vs sk0 lg0 sk1 lg1 where
      o: "(pid, eids') \<in> set pid_eids"
      "prop_volumes model p eids' sk0 lg0 = (Inr (vs, sk1), lg1)" "vs \<noteq> []"
      by auto
    from distinct_keys_value [OF d i o(1)] have "eids' = eids" by simp
    with o(2,3) v [of sk0 lg0] True show False by auto
  qed
  with True show ?thesis by simp
next
  case False
  from volume_breakdown_at [OF r i d p] obtain vs sk0 lg0 sk1 lg1 where
    a: "prop_volumes model p eids sk0 lg0 = (Inr (vs, sk1), lg1)"
    "vs \<noteq> [] \<longrightarrow> map_of pids_to_volume pid = Some (py_sum vs)"
    by blast
  from a(1) v [of sk0 lg0] have "vs = vals" by auto
  with a(2) False show ?thesis by simp
qed

lemma mass_breakdown_value:
  assumes r: "fst (get_mass_breakdown model pid_eids stop) = Inr (pids_to_mass, mtm)"
    and i: "(pid, eids) \<in> set pid_eids" and d: "distinct (map fst pid_eids)"
    and p: "properties model pid = Some p"
    and v: "\<And>sk lg. \<exists>sk' lg'. prop_masses model p eids sk lg = (Inr (vals, sk'), lg')"
  shows "map_of pids_to_mass pid = (if vals = [] then None else Some (py_sum vals))"
proof (cases "vals = []")
  case True
  have "map_of pids_to_mass pid = None"
  proof (rule ccontr)
    assume "map_of pids_to_mass pid \<noteq> None"
    from mass_breakdown_origin [OF r this] p obtain eids' vs sk0 lg0 sk1 lg1 where
      o: "(pid, eids') \<in> set pid_eids"
      "prop_masses model p eids' sk0 lg0 = (Inr (vs, sk1), lg1)" "vs \<noteq> []"
      by auto
    from distinct_keys_value [OF d i o(1)] have "eids' = eids" by simp
    with o(2,3) v [of sk0 lg0] True show False by auto
  qed
  with True show ?thesis by simp
next
  case False
  from mass_breakdown_at [OF r i d p] obtain vs sk0 lg0 sk1 lg1 where
    a: "prop_masses model p eids sk0 lg0 = (Inr (vs, sk1), lg1)"
    "vs \<noteq> [] \<longrightarrow> map_of pids_to_mass pid = Some (py_sum vs)"
    by blast
  from a(1) v [of sk0 lg0] have "vs = vals" by auto
  with a(2) False show ?thesis by simp
qed

lemma resolved_empty:
  assumes "map (elements model) eids = map Some elems" and "map g elems = map Some vals"
  shows "vals = [] \<longleftrightarrow> eids = []"
  using resolved_length [OF assms] by auto

lemma prop_areas_line:
  assumes "prop_type p \<in> set line_props"
    and "map (elements model) eids = map Some elems"
    and "map elem_Area elems = map Some areas"
  shows "prop_areas model False p eids = Inr (if eids = [] then [] else [last areas])"
    and "prop_areas model True p eids = Inr areas"
proof -
  have ns: "prop_type p \<notin> set shell_props"
    using assms(1) by (auto simp: line_props_def shell_props_def)
  show "prop_areas model False p eids = Inr (if eids = [] then [] else [last areas])"
    using ns assms(1) for_each_area_line_last [OF assms(2,3), of "[]"]
    by (simp add: prop_areas_def)
  show "prop_areas model True p eids = Inr areas"
    using ns assms(1) for_each_area_line_sum [OF assms(2,3), of "[]"]
    by (simp add: prop_areas_def)
qed

lemma py_sum_single: "py_sum [a] = a"
  by (simp add: py_sum_def)

section \<open>The properties of the breakdowns\<close>

text \<open>
  C10. For a line-like property whose elements exist and have an \<^verbatim>\<open>Area()\<close>, the list
  of areas that \<^verbatim>\<open>get_area_breakdown\<close> builds with \<^verbatim>\<open>sum_bar_area=False\<close> holds only
  the area of the last element iterated, the areas of the earlier elements being
  discarded, whereas with \<^verbatim>\<open>sum_bar_area=True\<close> it holds the areas of all elements; nothing
  is raised. When the property has at least one element, the area reported for its id
  with \<^verbatim>\<open>sum_bar_area=False\<close> is the area of that last element, by a call that processes
  the property last as well as by any call that returns, and with \<^verbatim>\<open>sum_bar_area=True\<close>
  it is the sum of all the areas; a property without elements gets no entry.
\<close>

theorem area_breakdown_bar_last:
  assumes "properties model pid = Some prop"
    and "prop_type prop \<in> set line_props"
    and "map (elements model) eids = map Some elems"
    and "map elem_Area elems = map Some areas"
  shows "prop_areas model False prop eids = Inr (if eids = [] then [] else [last areas]) \<and>
         prop_areas model True prop eids = Inr areas \<and>
         (get_area_breakdown model pre False = Inr d0 \<longrightarrow> eids \<noteq> [] \<longrightarrow>
            get_area_breakdown model (pre @ [(pid, eids)]) False =
              Inr (setitem pid (last areas) d0)) \<and>
         (get_area_breakdown model pre True = Inr d1 \<longrightarrow> eids \<noteq> [] \<longrightarrow>
            get_area_breakdown model (pre @ [(pid, eids)]) True =
              Inr (setitem pid (py_sum areas) d1)) \<and>
         ((pid, eids) \<in> set pid_eids \<longrightarrow> distinct (map fst pid_eids) \<longrightarrow>
          get_area_breakdown model pid_eids False = Inr pids_to_area \<longrightarrow>
            map_of pids_to_area pid = (if eids = [] then None else Some (last areas)))"
proof -
  note pa = prop_areas_line [OF assms(2-4)]
  have e: "areas = [] \<longleftrightarrow> eids = []"
    using resolved_empty [OF assms(3,4)] .
  have 1: "get_area_breakdown model (pre @ [(pid, eids)]) False =
              Inr (setitem pid (last areas) d0)"
    if "get_area_breakdown model pre False = Inr d0" "eids \<noteq> []"
    using area_breakdown_snoc [OF that(1) assms(1) pa(1)] that(2)
    by (simp add: py_sum_single)
  have 2: "get_area_breakdown model (pre @ [(pid, eids)]) True =
              Inr (setitem pid (py_sum areas) d1)"
    if "get_area_breakdown model pre True = Inr d1" "eids \<noteq> []"
    using area_breakdown_snoc [OF that(1) assms(1) pa(2)] that(2) e by simp
  have 3: "map_of pids_to_area pid = (if eids = [] then None else Some (last areas))"
    if "(pid, eids) \<in> set pid_eids" "distinct (map fst pid_eids)"
      "get_area_breakdown model pid_eids False = Inr pids_to_area"
    using area_breakdown_value [OF that(3,1,2) assms(1) pa(1)]
    by (simp add: py_sum_single)
  from pa 1 2 3 show ?thesis by blast
qed

theorem area_breakdown_bar_last_witness:
  "prop_areas truss_model False (line_prop ''PBAR'' 3 1 2) [1, 2] = Inr [3] \<and>
   prop_areas truss_model True (line_prop ''PBAR'' 3 1 2) [1, 2] = Inr [3, 3] \<and>
   get_area_breakdown truss_model [(2, [3]), (1, [1, 2])] False = Inr [(2, 2), (1, 3)] \<and>
   get_area_breakdown truss_model [(2, [3]), (1, [1, 2])] True = Inr [(2, 2), (1, 6)] \<and>
   get_area_breakdown (bar_model 2 3) [(1, [1, 2])] False = Inr [(1, 3)] \<and>
   get_area_breakdown (bar_model 2 3) [(1, [1, 2])] True = Inr [(1, 5)]"
proof -
  have p: "properties truss_model 1 = Some (line_prop ''PBAR'' 3 1 2)"
    "properties truss_model 2 = Some (line_prop ''PTUBE'' 2 0 5)"
    "properties (bar_model 2 3) 1 = Some bar_prop"
    by (simp_all add: truss_model_def bar_model_def)
  have ty: "prop_type (line_prop ''PBAR'' 3 1 2) \<in> set line_props"
    "prop_type (line_prop ''PTUBE'' 2 0 5) \<in> set line_props"
    "prop_type bar_prop \<in> set line_props"
    by (simp_all add: line_prop_def bar_prop_def line_props_def)
  have e: "map (elements truss_model) [1, 2] = map Some [bar_elem 3 4, bar_elem 3 6]"
    "map (elements truss_model) [3] = map Some [bar_elem 2 7]"
    "map (elements (bar_model 2 3)) [1, 2] = map Some [bar_elem 2 4, bar_elem 3 6]"
    by (simp_all add: truss_model_def bar_model_def)
  have a: "map elem_Area [bar_elem 3 4, bar_elem 3 6] = map Some [3, 3]"
    "map elem_Area [bar_elem 2 7] = map Some [2]"
    "map elem_Area [bar_elem 2 4, bar_elem 3 6] = map Some [2, 3]"
    by (simp_all add: bar_elem_def)
  have r0: "get_area_breakdown m [] sba = Inr []" for m sba
    by (simp add: get_area_breakdown_def)
  from area_breakdown_bar_last [OF p(2) ty(2) e(2) a(2), where pre = "[]"
      and ?d0.0 = "[]" and ?d1.0 = "[]"] r0
  have r1: "get_area_breakdown truss_model [(2, [3])] False = Inr [(2, 2)]"
    "get_area_breakdown truss_model [(2, [3])] True = Inr [(2, py_sum [2])]"
    by (simp_all add: setitem_def)
  from area_breakdown_bar_last [OF p(1) ty(1) e(1) a(1), where pre = "[(2, [3])]"
      and ?d0.0 = "[(2, 2)]" and ?d1.0 = "[(2, py_sum [2])]"] r1
  have r2: "prop_areas truss_model False (line_prop ''PBAR'' 3 1 2) [1, 2] = Inr [3] \<and>
   prop_areas truss_model True (line_prop ''PBAR'' 3 1 2) [1, 2] = Inr [3, 3] \<and>
   get_area_breakdown truss_model [(2, [3]), (1, [1, 2])] False = Inr [(2, 2), (1, 3)] \<and>
   get_area_breakdown truss_model [(2, [3]), (1, [1, 2])] True =
     Inr [(2, py_sum [2]), (1, py_sum [3, 3])]"
    by (simp add: setitem_def)
  from area_breakdown_bar_last [OF p(3) ty(3) e(3) a(3), where pre = "[]"
      and ?d0.0 = "[]" and ?d1.0 = "[]"] r0
  have r3: "get_area_breakdown (bar_model 2 3) [(1, [1, 2])] False = Inr [(1, 3)] \<and>
   get_area_breakdown (bar_model 2 3) [(1, [1, 2])] True = Inr [(1, py_sum [2, 3])]"
    by (simp add: setitem_def)
  from r2 r3 show ?thesis by (simp add: py_sum_def)
qed

text \<open>
  Two bars with the distinct areas 0 and 5 under one property: the area reported with
  \<^verbatim>\<open>sum_bar_area=False\<close> is 5, which is also the sum of the two areas that
  \<^verbatim>\<open>sum_bar_area=True\<close> reports.
\<close>

theorem area_breakdown_bar_sum_counterexample:
  "map (\<lambda>eid. map_option elem_Area (elements (bar_model 0 5) eid)) [1, 2] =
     [Some (Some 0), Some (Some 5)] \<and>
   (0 :: real) \<noteq> 5 \<and>
   get_area_breakdown (bar_model 0 5) [(1, [1, 2])] False = Inr [(1, 5)] \<and>
   get_area_breakdown (bar_model 0 5) [(1, [1, 2])] True = Inr [(1, 5)] \<and>
   py_sum [0, 5] = 5"
  by (simp add: get_area_breakdown_def area_prop_step_def prop_areas_def bar_model_def
      bar_prop_def bar_elem_def line_props_def shell_props_def area_line_step_def
      py_sum_def setitem_def)

text \<open>
  C8. For a node id \<open>n\<close> of the model whose \<^verbatim>\<open>get_position()\<close> returns \<open>pos\<close>,
  \<^verbatim>\<open>mass_properties\<close> called with \<^verbatim>\<open>reference_point=n\<close> returns what it returns with
  \<^verbatim>\<open>reference_point=pos\<close>, and called without a reference point it returns what it
  returns with the zero vector, whatever the three imported functions compute.
\<close>

theorem mass_properties_reference_point:
  assumes "nodes model n = Some nd"
    and "get_position nd = Some pos"
  shows "mass_properties elements_init engine apply_mass_symmetry
           model element_ids mass_ids (RefInt n) sym_axis scale =
         mass_properties elements_init engine apply_mass_symmetry
           model element_ids mass_ids (RefArray pos) sym_axis scale \<and>
         mass_properties elements_init engine apply_mass_symmetry
           model element_ids mass_ids RefNone sym_axis scale =
         mass_properties elements_init engine apply_mass_symmetry
           model element_ids mass_ids (RefArray (0, 0, 0)) sym_axis scale"
  using assms by (simp add: mass_properties_def)

theorem mass_properties_reference_point_witness:
  "mass_properties (\<lambda>m (e :: unit) (k :: unit). Inr (e, (), k, ()))
       (\<lambda>m (e :: unit) (k :: unit) rp. Inr (rp, (), ()))
       (\<lambda>m (s :: unit) (c :: unit) mass cg I. Inr (mass, cg, I))
       node_model () () (RefInt 7) () () = Inr (RefArray (1, 2, 3), (), ()) \<and>
   mass_properties (\<lambda>m (e :: unit) (k :: unit). Inr (e, (), k, ()))
       (\<lambda>m (e :: unit) (k :: unit) rp. Inr (rp, (), ()))
       (\<lambda>m (s :: unit) (c :: unit) mass cg I. Inr (mass, cg, I))
       node_model () () RefNone () () = Inr (RefArray (0, 0, 0), (), ())"
proof -
  have n: "nodes node_model 7 = Some \<lparr>get_position = Some (1, 2, 3)\<rparr>"
    and p: "get_position \<lparr>get_position = Some (1, 2, 3)\<rparr> = Some (1, 2, 3)"
    by (simp_all add: node_model_def)
  have "mass_properties (\<lambda>m (e :: unit) (k :: unit). Inr (e, (), k, ()))
       (\<lambda>m (e :: unit) (k :: unit) rp. Inr (rp, (), ()))
       (\<lambda>m (s :: unit) (c :: unit) mass cg I. Inr (mass, cg, I))
       node_model () () (RefArray v) () () = Inr (RefArray v, (), ())" for v
    by (simp add: mass_properties_def)
  with mass_properties_reference_point [OF n p,
      of "\<lambda>m (e :: unit) (k :: unit). Inr (e, (), k, ())"
         "\<lambda>m (e :: unit) (k :: unit) rp. Inr (rp, (), ())"
         "\<lambda>m (s :: unit) (c :: unit) mass cg I. Inr (mass, cg, I)" "()" "()" "()" "()"]
  show ?thesis by simp
qed

text \<open>
  C1. For a PSHELL or PSHEAR property whose elements exist and have an \<^verbatim>\<open>Area()\<close>, the
  list of summands that \<^verbatim>\<open>get_mass_breakdown\<close> builds is the element area times (density
  times thickness plus non-structural mass per area) for each element, and nothing is
  raised; for a PCOMP or PCOMPG property whose elements have a \<^verbatim>\<open>Mass()\<close> it is the
  list of these \<^verbatim>\<open>Mass()\<close> values. When the property has at least one element, the
  mass reported for its id is the sum of that list, by a call that processes it last as
  well as by any call that returns; a property without elements gets no entry.
\<close>

theorem mass_breakdown_shell_like:
  assumes "properties model pid = Some prop"
    and "map (elements model) eids = map Some elems"
  shows "(prop_type prop = ''PSHELL'' \<or> prop_type prop = ''PSHEAR'' \<longrightarrow>
            prop_t prop = Some t \<longrightarrow> prop_nsm prop = Some nsm \<longrightarrow> prop_Rho prop = Some rho \<longrightarrow>
            map elem_Area elems = map Some areas \<longrightarrow>
            prop_masses model prop eids sk lg =
              (Inr (map (\<lambda>area. area * (rho * t + nsm)) areas, sk), lg) \<and>
            (fst (get_mass_breakdown model pre False) = Inr (d0, mtm0) \<longrightarrow> eids \<noteq> [] \<longrightarrow>
               fst (get_mass_breakdown model (pre @ [(pid, eids)]) stop) =
                 Inr (setitem pid (shell_like_mass rho t nsm areas) d0, mtm0)) \<and>
            ((pid, eids) \<in> set pid_eids \<longrightarrow> distinct (map fst pid_eids) \<longrightarrow>
             fst (get_mass_breakdown model pid_eids stop) = Inr (pids_to_mass, mtm) \<longrightarrow>
               map_of pids_to_mass pid =
                 (if eids = [] then None else Some (shell_like_mass rho t nsm areas)))) \<and>
         (prop_type prop = ''PCOMP'' \<or> prop_type prop = ''PCOMPG'' \<longrightarrow>
            map elem_Mass elems = map Some ms \<longrightarrow>
            prop_masses model prop eids sk lg = (Inr (ms, sk), lg) \<and>
            (fst (get_mass_breakdown model pre False) = Inr (d0, mtm0) \<longrightarrow> eids \<noteq> [] \<longrightarrow>
               fst (get_mass_breakdown model (pre @ [(pid, eids)]) stop) =
                 Inr (setitem pid (py_sum ms) d0, mtm0)) \<and>
            ((pid, eids) \<in> set pid_eids \<longrightarrow> distinct (map fst pid_eids) \<longrightarrow>
             fst (get_mass_breakdown model pid_eids stop) = Inr (pids_to_mass, mtm) \<longrightarrow>
               map_of pids_to_mass pid = (if eids = [] then None else Some (py_sum ms))))"
proof -
  have shell: "prop_masses model prop eids sk lg =
              (Inr (map (\<lambda>area. area * (rho * t + nsm)) areas, sk), lg) \<and>
            (fst (get_mass_breakdown model pre False) = Inr (d0, mtm0) \<longrightarrow> eids \<noteq> [] \<longrightarrow>
               fst (get_mass_breakdown model (pre @ [(pid, eids)]) stop) =
                 Inr (setitem pid (shell_like_mass rho t nsm areas) d0, mtm0)) \<and>
            ((pid, eids) \<in> set pid_eids \<longrightarrow> distinct (map fst pid_eids) \<longrightarrow>
             fst (get_mass_breakdown model pid_eids stop) = Inr (pids_to_mass, mtm) \<longrightarrow>
               map_of pids_to_mass pid =
                 (if eids = [] then None else Some (shell_like_mass rho t nsm areas)))"
    if ty: "prop_type prop = ''PSHELL'' \<or> prop_type prop = ''PSHEAR''"
      and f: "prop_t prop = Some t" "prop_nsm prop = Some nsm" "prop_Rho prop = Some rho"
      and a: "map elem_Area elems = map Some areas"
  proof -
    let ?vals = "map (\<lambda>area. area * (rho * t + nsm)) areas"
    note pm = prop_masses_shell [OF ty f assms(2) a]
    have ex: "\<exists>sk' lg'. prop_masses model prop eids sk lg = (Inr (?vals, sk'), lg')" for sk lg
      using pm [of sk lg] by simp
    have e: "?vals = [] \<longleftrightarrow> eids = []"
      using resolved_empty [OF assms(2) a] by simp
    have 1: "fst (get_mass_breakdown model (pre @ [(pid, eids)]) stop) =
                 Inr (setitem pid (shell_like_mass rho t nsm areas) d0, mtm0)"
      if "fst (get_mass_breakdown model pre False) = Inr (d0, mtm0)" "eids \<noteq> []"
      using mass_breakdown_snoc [OF that(1) assms(1) ex] that(2) e
      by (simp add: shell_like_mass_def)
    have 2: "map_of pids_to_mass pid =
                 (if eids = [] then None else Some (shell_like_mass rho t nsm areas))"
      if "(pid, eids) \<in> set pid_eids" "distinct (map fst pid_eids)"
        "fst (get_mass_breakdown model pid_eids stop) = Inr (pids_to_mass, mtm)"
      using mass_breakdown_value [OF that(3,1,2) assms(1) ex] e
      by (simp add: shell_like_mass_def)
    from pm [of sk lg] 1 2 show ?thesis by blast
  qed
  have comp: "prop_masses model prop eids sk lg = (Inr (ms, sk), lg) \<and>
            (fst (get_mass_breakdown model pre False) = Inr (d0, mtm0) \<longrightarrow> eids \<noteq> [] \<longrightarrow>
               fst (get_mass_breakdown model (pre @ [(pid, eids)]) stop) =
                 Inr (setitem pid (py_sum ms) d0, mtm0)) \<and>
            ((pid, eids) \<in> set pid_eids \<longrightarrow> distinct (map fst pid_eids) \<longrightarrow>
             fst (get_mass_breakdown model pid_eids stop) = Inr (pids_to_mass, mtm) \<longrightarrow>
               map_of pids_to_mass pid = (if eids = [] then None else Some (py_sum ms)))"
    if ty: "prop_type prop = ''PCOMP'' \<or> prop_type prop = ''PCOMPG''"
      and m: "map elem_Mass elems = map Some ms"
  proof -
    note pm = prop_masses_comp [OF ty assms(2) m]
    have ex: "\<exists>sk' lg'. prop_masses model prop eids sk lg = (Inr (ms, sk'), lg')" for sk lg
      using pm [of sk lg] by simp
    have e: "ms = [] \<longleftrightarrow> eids = []"
      using resolved_empty [OF assms(2) m] .
    have 1: "fst (get_mass_breakdown model (pre @ [(pid, eids)]) stop) =
                 Inr (setitem pid (py_sum ms) d0, mtm0)"
      if "fst (get_mass_breakdown model pre False) = Inr (d0, mtm0)" "eids \<noteq> []"
      using mass_breakdown_snoc [OF that(1) assms(1) ex] that(2) e by simp
    have 2: "map_of pids_to_mass pid = (if eids = [] then None else Some (py_sum ms))"
      if "(pid, eids) \<in> set pid_eids" "distinct (map fst pid_eids)"
        "fst (get_mass_breakdown model pid_eids stop) = Inr (pids_to_mass, mtm)"
      using mass_breakdown_value [OF that(3,1,2) assms(1) ex] e by simp
    from pm [of sk lg] 1 2 show ?thesis by blast
  qed
  from shell comp show ?thesis by blast
qed

theorem mass_breakdown_shell_like_witness:
  "prop_masses laminate_model (laminate_prop ''PSHEAR'' 4 2 5) [31, 32, 33] {} [] =
     (Inr (map (\<lambda>area. area * (5 * 4 + 2)) [1, 2, 3], {}), []) \<and>
   prop_masses laminate_model (laminate_prop ''PCOMPG'' 4 2 5) [41, 42] {} [] =
     (Inr ([6, 11], {}), []) \<and>
   fst (get_mass_breakdown laminate_model
          [(1, [11, 12]), (2, [21, 22]), (3, [31, 32, 33]), (4, [41, 42])] True) =
     Inr ([(1, 63), (2, 15), (3, 132), (4, 17)], [])"
proof -
  have p: "properties laminate_model 1 = Some (laminate_prop ''PSHELL'' 2 1 3)"
    "properties laminate_model 2 = Some (laminate_prop ''PCOMP'' 2 1 3)"
    "properties laminate_model 3 = Some (laminate_prop ''PSHEAR'' 4 2 5)"
    "properties laminate_model 4 = Some (laminate_prop ''PCOMPG'' 4 2 5)"
    by (simp_all add: laminate_model_def)
  have e: "map (elements laminate_model) [11, 12] = map Some [shell_elem 4 9, shell_elem 5 10]"
    "map (elements laminate_model) [21, 22] = map Some [shell_elem 1 7, shell_elem 1 8]"
    "map (elements laminate_model) [31, 32, 33] =
       map Some [shell_elem 1 0, shell_elem 2 0, shell_elem 3 0]"
    "map (elements laminate_model) [41, 42] = map Some [shell_elem 1 6, shell_elem 1 11]"
    by (simp_all add: laminate_model_def)
  have f: "prop_type (laminate_prop ty t nsm rho) = ty"
    "prop_t (laminate_prop ty t nsm rho) = Some t"
    "prop_nsm (laminate_prop ty t nsm rho) = Some nsm"
    "prop_Rho (laminate_prop ty t nsm rho) = Some rho" for ty t nsm rho
    by (simp_all add: laminate_prop_def)
  have a: "map elem_Area [shell_elem 4 9, shell_elem 5 10] = map Some [4, 5]"
    "map elem_Mass [shell_elem 1 7, shell_elem 1 8] = map Some [7, 8]"
    "map elem_Area [shell_elem 1 0, shell_elem 2 0, shell_elem 3 0] = map Some [1, 2, 3]"
    "map elem_Mass [shell_elem 1 6, shell_elem 1 11] = map Some [6, 11]"
    by (simp_all add: shell_elem_def)
  have r0: "fst (get_mass_breakdown laminate_model [] False) = Inr ([], [])"
    by (simp add: get_mass_breakdown_def laminate_model_def)
  from mass_breakdown_shell_like [OF p(1) e(1), where t = 2 and nsm = 1 and rho = 3
      and areas = "[4, 5]" and pre = "[]" and ?d0.0 = "[]" and ?mtm0.0 = "[]" and stop = False]
    f a(1) r0
  have r1: "fst (get_mass_breakdown laminate_model [(1, [11, 12])] False) =
      Inr ([(1, shell_like_mass 3 2 1 [4, 5])], [])"
    by (simp add: setitem_def)
  from mass_breakdown_shell_like [OF p(2) e(2), where ms = "[7, 8]"
      and pre = "[(1, [11, 12])]" and ?d0.0 = "[(1, shell_like_mass 3 2 1 [4, 5])]"
      and ?mtm0.0 = "[]" and stop = False]
    f a(2) r1
  have r2: "fst (get_mass_breakdown laminate_model [(1, [11, 12]), (2, [21, 22])] False) =
      Inr ([(1, shell_like_mass 3 2 1 [4, 5]), (2, py_sum [7, 8])], [])"
    by (simp add: setitem_def)
  from mass_breakdown_shell_like [OF p(3) e(3), where t = 4 and nsm = 2 and rho = 5
      and areas = "[1, 2, 3]" and sk = "{}" and lg = "[]"
      and pre = "[(1, [11, 12]), (2, [21, 22])]"
      and ?d0.0 = "[(1, shell_like_mass 3 2 1 [4, 5]), (2, py_sum [7, 8])]"
      and ?mtm0.0 = "[]" and stop = False]
    f a(3) r2
  have r3: "prop_masses laminate_model (laminate_prop ''PSHEAR'' 4 2 5) [31, 32, 33] {} [] =
        (Inr (map (\<lambda>area. area * (5 * 4 + 2)) [1, 2, 3], {}), []) \<and>
      fst (get_mass_breakdown laminate_model
          [(1, [11, 12]), (2, [21, 22]), (3, [31, 32, 33])] False) =
      Inr ([(1, shell_like_mass 3 2 1 [4, 5]), (2, py_sum [7, 8]),
            (3, shell_like_mass 5 4 2 [1, 2, 3])], [])"
    by (simp add: setitem_def)
  from mass_breakdown_shell_like [OF p(4) e(4), where ms = "[6, 11]"
      and sk = "{}" and lg = "[]"
      and pre = "[(1, [11, 12]), (2, [21, 22]), (3, [31, 32, 33])]"
      and ?d0.0 = "[(1, shell_like_mass 3 2 1 [4, 5]), (2, py_sum [7, 8]),
            (3, shell_like_mass 5 4 2 [1, 2, 3])]"
      and ?mtm0.0 = "[]" and stop = True]
    f a(4) r3
  have r4: "prop_masses laminate_model (laminate_prop ''PCOMPG'' 4 2 5) [41, 42] {} [] =
        (Inr ([6, 11], {}), []) \<and>
      fst (get_mass_breakdown laminate_model
          [(1, [11, 12]), (2, [21, 22]), (3, [31, 32, 33]), (4, [41, 42])] True) =
      Inr ([(1, shell_like_mass 3 2 1 [4, 5]), (2, py_sum [7, 8]),
            (3, shell_like_mass 5 4 2 [1, 2, 3]), (4, py_sum [6, 11])], [])"
    by (simp add: setitem_def)
  from r3 r4 show ?thesis by (simp add: shell_like_mass_def py_sum_def)
qed

text \<open>
  A PCOMP property of density 1, thickness 1 and no non-structural mass with one element
  of area 2 whose \<^verbatim>\<open>Mass()\<close> is 7: the reported mass is 7, the formula gives 2.
\<close>

theorem mass_breakdown_comp_counterexample:
  "properties (shell_model ''PCOMP'') 1 = Some (shell_prop ''PCOMP'') \<and>
   prop_type (shell_prop ''PCOMP'') = ''PCOMP'' \<and>
   prop_Rho (shell_prop ''PCOMP'') = Some 1 \<and>
   prop_t (shell_prop ''PCOMP'') = Some 1 \<and>
   prop_Thickness (shell_prop ''PCOMP'') = Some 1 \<and>
   prop_nsm (shell_prop ''PCOMP'') = Some 0 \<and>
   map (\<lambda>eid. map_option elem_Area (elements (shell_model ''PCOMP'') eid)) [1] = [Some (Some 2)] \<and>
   fst (get_mass_breakdown (shell_model ''PCOMP'') [(1, [1])] True) = Inr ([(1, 7)], []) \<and>
   shell_like_mass 1 1 0 [2] \<noteq> 7"
  by (simp add: shell_model_mass) (simp add: shell_model_def shell_prop_def shell_elem_def
      shell_like_mass_def py_sum_def)

text \<open>
  C2. For a line-like property whose elements exist and have a \<^verbatim>\<open>Length()\<close>, the list
  of summands that \<^verbatim>\<open>get_volume_breakdown\<close> builds is the property area times the
  element length for each element, the list that \<^verbatim>\<open>get_mass_breakdown\<close> builds is the
  property area times (density times element length plus non-structural mass per length)
  for each element, and nothing is raised. When the property has at least one element,
  the volume and the mass reported for its id are the sums of these lists, by a call that
  processes it last as well as by any call that returns; a property without elements
  gets no entry in either mapping.
\<close>

theorem line_like_volume_and_mass:
  assumes "properties model pid = Some prop"
    and "prop_type prop \<in> set line_props"
    and "prop_Area prop = Some A"
    and "map (elements model) eids = map Some elems"
    and "map elem_Length elems = map Some lengths"
  shows "prop_volumes model prop eids sk lg =
           (Inr (map (\<lambda>length. A * length) lengths, sk), lg) \<and>
         (fst (get_volume_breakdown model pre) = Inr dv0 \<longrightarrow> eids \<noteq> [] \<longrightarrow>
            fst (get_volume_breakdown model (pre @ [(pid, eids)])) =
              Inr (setitem pid (py_sum (map (\<lambda>length. A * length) lengths)) dv0)) \<and>
         ((pid, eids) \<in> set pid_eids \<longrightarrow> distinct (map fst pid_eids) \<longrightarrow>
          fst (get_volume_breakdown model pid_eids) = Inr pids_to_volume \<longrightarrow>
            map_of pids_to_volume pid =
              (if eids = [] then None
               else Some (py_sum (map (\<lambda>length. A * length) lengths)))) \<and>
         (prop_nsm prop = Some nsm \<longrightarrow> prop_Rho prop = Some rho \<longrightarrow>
            prop_masses model prop eids sk lg =
              (Inr (map (\<lambda>length. A * (rho * length + nsm)) lengths, sk), lg) \<and>
            (fst (get_mass_breakdown model pre False) = Inr (dm0, mtm0) \<longrightarrow> eids \<noteq> [] \<longrightarrow>
               fst (get_mass_breakdown model (pre @ [(pid, eids)]) stop) =
                 Inr (setitem pid
                        (py_sum (map (\<lambda>length. A * (rho * length + nsm)) lengths)) dm0, mtm0)) \<and>
            ((pid, eids) \<in> set pid_eids \<longrightarrow> distinct (map fst pid_eids) \<longrightarrow>
             fst (get_mass_breakdown model pid_eids stop) = Inr (pids_to_mass, mtm) \<longrightarrow>
               map_of pids_to_mass pid =
                 (if eids = [] then None
                  else Some (py_sum (map (\<lambda>length. A * (rho * length + nsm)) lengths)))))"
proof -
  let ?vols = "map (\<lambda>length. A * length) lengths"
  note pv = prop_volumes_line [OF assms(2-5)]
  have exv: "\<exists>sk' lg'. prop_volumes model prop eids sk lg = (Inr (?vols, sk'), lg')" for sk lg
    using pv [of sk lg] by simp
  have ev: "?vols = [] \<longleftrightarrow> eids = []"
    using resolved_empty [OF assms(4,5)] by simp
  have v1: "fst (get_volume_breakdown model (pre @ [(pid, eids)])) =
              Inr (setitem pid (py_sum ?vols) dv0)"
    if "fst (get_volume_breakdown model pre) = Inr dv0" "eids \<noteq> []"
    using volume_breakdown_snoc [OF that(1) assms(1) exv] that(2) ev by simp
  have v2: "map_of pids_to_volume pid = (if eids = [] then None else Some (py_sum ?vols))"
    if "(pid, eids) \<in> set pid_eids" "distinct (map fst pid_eids)"
      "fst (get_volume_breakdown model pid_eids) = Inr pids_to_volume"
    using volume_breakdown_value [OF that(3,1,2) assms(1) exv] ev by simp
  have mass: "prop_masses model prop eids sk lg =
              (Inr (map (\<lambda>length. A * (rho * length + nsm)) lengths, sk), lg) \<and>
            (fst (get_mass_breakdown model pre False) = Inr (dm0, mtm0) \<longrightarrow> eids \<noteq> [] \<longrightarrow>
               fst (get_mass_breakdown model (pre @ [(pid, eids)]) stop) =
                 Inr (setitem pid
                        (py_sum (map (\<lambda>length. A * (rho * length + nsm)) lengths)) dm0, mtm0)) \<and>
            ((pid, eids) \<in> set pid_eids \<longrightarrow> distinct (map fst pid_eids) \<longrightarrow>
             fst (get_mass_breakdown model pid_eids stop) = Inr (pids_to_mass, mtm) \<longrightarrow>
               map_of pids_to_mass pid =
                 (if eids = [] then None
                  else Some (py_sum (map (\<lambda>length. A * (rho * length + nsm)) lengths))))"
    if f: "prop_nsm prop = Some nsm" "prop_Rho prop = Some rho"
  proof -
    let ?ms = "map (\<lambda>length. A * (rho * length + nsm)) lengths"
    note pm = prop_masses_line [OF assms(2) f assms(3-5)]
    have exm: "\<exists>sk' lg'. prop_masses model prop eids sk lg = (Inr (?ms, sk'), lg')" for sk lg
      using pm [of sk lg] by simp
    have em: "?ms = [] \<longleftrightarrow> eids = []"
      using resolved_empty [OF assms(4,5)] by simp
    have m1: "fst (get_mass_breakdown model (pre @ [(pid, eids)]) stop) =
                 Inr (setitem pid (py_sum ?ms) dm0, mtm0)"
      if "fst (get_mass_breakdown model pre False) = Inr (dm0, mtm0)" "eids \<noteq> []"
      using mass_breakdown_snoc [OF that(1) assms(1) exm] that(2) em by simp
    have m2: "map_of pids_to_mass pid = (if eids = [] then None else Some (py_sum ?ms))"
      if "(pid, eids) \<in> set pid_eids" "distinct (map fst pid_eids)"
        "fst (get_mass_breakdown model pid_eids stop) = Inr (pids_to_mass, mtm)"
      using mass_breakdown_value [OF that(3,1,2) assms(1) exm] em by simp
    from pm [of sk lg] m1 m2 show ?thesis by blast
  qed
  from pv [of sk lg] v1 v2 mass show ?thesis by blast
qed

theorem line_like_volume_and_mass_witness:
  "prop_volumes truss_model (line_prop ''PTUBE'' 2 0 5) [3] {} [] =
     (Inr (map (\<lambda>length. 2 * length) [7], {}), []) \<and>
   prop_masses truss_model (line_prop ''PTUBE'' 2 0 5) [3] {} [] =
     (Inr (map (\<lambda>length. 2 * (5 * length + 0)) [7], {}), []) \<and>
   fst (get_volume_breakdown truss_model [(1, [1, 2]), (2, [3])]) =
     Inr [(1, 30), (2, 14)] \<and>
   fst (get_mass_breakdown truss_model [(1, [1, 2]), (2, [3])] True) =
     Inr ([(1, 66), (2, 70)], [])"
proof -
  have p: "properties truss_model 1 = Some (line_prop ''PBAR'' 3 1 2)"
    "properties truss_model 2 = Some (line_prop ''PTUBE'' 2 0 5)"
    by (simp_all add: truss_model_def)
  have ty: "prop_type (line_prop ''PBAR'' 3 1 2) \<in> set line_props"
    "prop_type (line_prop ''PTUBE'' 2 0 5) \<in> set line_props"
    by (simp_all add: line_prop_def line_props_def)
  have f: "prop_Area (line_prop ty A nsm rho) = Some A"
    "prop_nsm (line_prop ty A nsm rho) = Some nsm"
    "prop_Rho (line_prop ty A nsm rho) = Some rho" for ty A nsm rho
    by (simp_all add: line_prop_def)
  have e: "map (elements truss_model) [1, 2] = map Some [bar_elem 3 4, bar_elem 3 6]"
    "map (elements truss_model) [3] = map Some [bar_elem 2 7]"
    by (simp_all add: truss_model_def)
  have l: "map elem_Length [bar_elem 3 4, bar_elem 3 6] = map Some [4, 6]"
    "map elem_Length [bar_elem 2 7] = map Some [7]"
    by (simp_all add: bar_elem_def)
  have r0: "fst (get_volume_breakdown truss_model []) = Inr []"
    "fst (get_mass_breakdown truss_model [] False) = Inr ([], [])"
    by (simp_all add: get_volume_breakdown_def get_mass_breakdown_def truss_model_def)
  from line_like_volume_and_mass [OF p(1) ty(1) f(1) e(1) l(1), where pre = "[]"
      and ?dv0.0 = "[]" and ?dm0.0 = "[]" and ?mtm0.0 = "[]" and stop = False
      and nsm = 1 and rho = 2] f(2,3) r0
  have r1: "fst (get_volume_breakdown truss_model [(1, [1, 2])]) =
      Inr [(1, py_sum (map (\<lambda>length. 3 * length) [4, 6]))]"
    "fst (get_mass_breakdown truss_model [(1, [1, 2])] False) =
      Inr ([(1, py_sum (map (\<lambda>length. 3 * (2 * length + 1)) [4, 6]))], [])"
    by (simp_all add: setitem_def)
  from line_like_volume_and_mass [OF p(2) ty(2) f(1) e(2) l(2), where sk = "{}" and lg = "[]"
      and pre = "[(1, [1, 2])]"
      and ?dv0.0 = "[(1, py_sum (map (\<lambda>length. 3 * length) [4, 6]))]"
      and ?dm0.0 = "[(1, py_sum (map (\<lambda>length. 3 * (2 * length + 1)) [4, 6]))]"
      and ?mtm0.0 = "[]" and stop = True and nsm = 0 and rho = 5] f(2,3) r1
  have r2: "prop_volumes truss_model (line_prop ''PTUBE'' 2 0 5) [3] {} [] =
     (Inr (map (\<lambda>length. 2 * length) [7], {}), []) \<and>
   prop_masses truss_model (line_prop ''PTUBE'' 2 0 5) [3] {} [] =
     (Inr (map (\<lambda>length. 2 * (5 * length + 0)) [7], {}), []) \<and>
   fst (get_volume_breakdown truss_model [(1, [1, 2]), (2, [3])]) =
     Inr [(1, py_sum (map (\<lambda>length. 3 * length) [4, 6])),
          (2, py_sum (map (\<lambda>length. 2 * length) [7]))] \<and>
   fst (get_mass_breakdown truss_model [(1, [1, 2]), (2, [3])] True) =
     Inr ([(1, py_sum (map (\<lambda>length. 3 * (2 * length + 1)) [4, 6])),
           (2, py_sum (map (\<lambda>length. 2 * (5 * length + 0)) [7]))], [])"
    by (simp add: setitem_def)
  then show ?thesis by (simp add: py_sum_def)
qed

text \<open>
  A PBAR property of area 3 without elements: the area times the sum of the lengths is
  0, and so is the sum of the masses, but neither breakdown has an entry for it.
\<close>

theorem line_like_no_elements_counterexample:
  "properties truss_model 1 = Some (line_prop ''PBAR'' 3 1 2) \<and>
   prop_type (line_prop ''PBAR'' 3 1 2) \<in> set line_props \<and>
   prop_Area (line_prop ''PBAR'' 3 1 2) = Some 3 \<and>
   fst (get_volume_breakdown truss_model [(1, [])]) = Inr [] \<and>
   map_of ([] :: (int \<times> real) list) 1 \<noteq> Some (3 * sum_list []) \<and>
   fst (get_mass_breakdown truss_model [(1, [])] False) = Inr ([], []) \<and>
   map_of ([] :: (int \<times> real) list) 1 \<noteq> Some (\<Sum>length\<leftarrow>[]. 3 * (2 * length + 1))"
  by (simp add: get_volume_breakdown_def volume_prop_step_def prop_volumes_def
      get_mass_breakdown_def mass_prop_step_def prop_masses_def
      truss_model_def line_prop_def line_props_def)

text \<open>
  C7. A property id is a key of the mapping that a breakdown returns only if an item of
  the selection with that id gave a non-empty list of summands. In particular the id of
  a property whose type is in \<^verbatim>\<open>skip_props\<close> is no key of the result of
  \<^verbatim>\<open>get_area_breakdown\<close>, the id of one whose type is in \<^verbatim>\<open>no_volume\<close> is no key of the
  result of \<^verbatim>\<open>get_volume_breakdown\<close>, and the id of one whose type is in
  \<^verbatim>\<open>properties_to_skip\<close> is no key of the first result of \<^verbatim>\<open>get_mass_breakdown\<close>.
\<close>

theorem breakdown_keys_contributed:
  "(get_area_breakdown model pid_eids sba = Inr pids_to_area \<longrightarrow>
      (map_of pids_to_area pid \<noteq> None \<longrightarrow>
         (\<exists>eids p areas. (pid, eids) \<in> set pid_eids \<and> properties model pid = Some p \<and>
            prop_areas model sba p eids = Inr areas \<and> areas \<noteq> [])) \<and>
      (properties model pid = Some prop \<longrightarrow> prop_type prop \<in> set skip_props \<longrightarrow>
         map_of pids_to_area pid = None)) \<and>
   (fst (get_volume_breakdown model pid_eids) = Inr pids_to_volume \<longrightarrow>
      (map_of pids_to_volume pid \<noteq> None \<longrightarrow>
         (\<exists>eids p volumes sk lg sk' lg'. (pid, eids) \<in> set pid_eids \<and>
            properties model pid = Some p \<and>
            prop_volumes model p eids sk lg = (Inr (volumes, sk'), lg') \<and> volumes \<noteq> [])) \<and>
      (properties model pid = Some prop \<longrightarrow> prop_type prop \<in> set no_volume \<longrightarrow>
         map_of pids_to_volume pid = None)) \<and>
   (fst (get_mass_breakdown model pid_eids stop) = Inr (pids_to_mass, mtm) \<longrightarrow>
      (map_of pids_to_mass pid \<noteq> None \<longrightarrow>
         (\<exists>eids p ms sk lg sk' lg'. (pid, eids) \<in> set pid_eids \<and>
            properties model pid = Some p \<and>
            prop_masses model p eids sk lg = (Inr (ms, sk'), lg') \<and> ms \<noteq> [])) \<and>
      (properties model pid = Some prop \<longrightarrow> prop_type prop \<in> set properties_to_skip \<longrightarrow>
         map_of pids_to_mass pid = None))"
proof -
  have a1: "\<exists>eids p areas. (pid, eids) \<in> set pid_eids \<and> properties model pid = Some p \<and>
            prop_areas model sba p eids = Inr areas \<and> areas \<noteq> []"
    if "get_area_breakdown model pid_eids sba = Inr pids_to_area"
      and "map_of pids_to_area pid \<noteq> None"
    using area_breakdown_origin [OF that] .
  have a2: "map_of pids_to_area pid = None"
    if r: "get_area_breakdown model pid_eids sba = Inr pids_to_area"
      and p: "properties model pid = Some prop" "prop_type prop \<in> set skip_props"
  proof (rule ccontr)
    assume "map_of pids_to_area pid \<noteq> None"
    from area_breakdown_origin [OF r this] p(1) obtain eids areas where
      "prop_areas model sba prop eids = Inr areas" "areas \<noteq> []"
      by auto
    with prop_areas_skip [OF p(2), of model sba eids] show False by simp
  qed
  have v1: "\<exists>eids p volumes sk lg sk' lg'. (pid, eids) \<in> set pid_eids \<and>
            properties model pid = Some p \<and>
            prop_volumes model p eids sk lg = (Inr (volumes, sk'), lg') \<and> volumes \<noteq> []"
    if "fst (get_volume_breakdown model pid_eids) = Inr pids_to_volume"
      and "map_of pids_to_volume pid \<noteq> None"
    using volume_breakdown_origin [OF that] .
  have v2: "map_of pids_to_volume pid = None"
    if r: "fst (get_volume_breakdown model pid_eids) = Inr pids_to_volume"
      and p: "properties model pid = Some prop" "prop_type prop \<in> set no_volume"
  proof (rule ccontr)
    assume "map_of pids_to_volume pid \<noteq> None"
    from volume_breakdown_origin [OF r this] p(1) obtain eids vs sk lg sk' lg' where
      "prop_volumes model prop eids sk lg = (Inr (vs, sk'), lg')" "vs \<noteq> []"
      by auto
    with prop_volumes_skip [OF p(2), of model eids sk lg] show False by simp
  qed
  have m1: "\<exists>eids p ms sk lg sk' lg'. (pid, eids) \<in> set pid_eids \<and>
            properties model pid = Some p \<and>
            prop_masses model p eids sk lg = (Inr (ms, sk'), lg') \<and> ms \<noteq> []"
    if "fst (get_mass_breakdown model pid_eids stop) = Inr (pids_to_mass, mtm)"
      and "map_of pids_to_mass pid \<noteq> None"
    using mass_breakdown_origin [OF that] .
  have m2: "map_of pids_to_mass pid = None"
    if r: "fst (get_mass_breakdown model pid_eids stop) = Inr (pids_to_mass, mtm)"
      and p: "properties model pid = Some prop" "prop_type prop \<in> set properties_to_skip"
  proof (rule ccontr)
    assume "map_of pids_to_mass pid \<noteq> None"
    from mass_breakdown_origin [OF r this] p(1) obtain eids vs sk lg sk' lg' where
      "prop_masses model prop eids sk lg = (Inr (vs, sk'), lg')" "vs \<noteq> []"
      by auto
    with prop_masses_skip [OF p(2), of model eids sk lg] show False by simp
  qed
  from a1 a2 v1 v2 m1 m2 show ?thesis by blast
qed

theorem breakdown_keys_contributed_witness:
  "map_of [(1 :: int, 2 :: real)] 2 = None \<and>
   map_of [(1 :: int, 2 :: real), (3, 5)] 2 = None \<and>
   map_of [(1 :: int, 2 :: real), (3, 15)] 2 = None \<and>
   (\<exists>eids p areas. (1, eids) \<in> set mixed_pid_eids \<and> properties mixed_model 1 = Some p \<and>
      prop_areas mixed_model True p eids = Inr areas \<and> areas \<noteq> []) \<and>
   (\<exists>eids p volumes sk lg sk' lg'. (1, eids) \<in> set mixed_pid_eids \<and>
      properties mixed_model 1 = Some p \<and>
      prop_volumes mixed_model p eids sk lg = (Inr (volumes, sk'), lg') \<and> volumes \<noteq> []) \<and>
   (\<exists>eids p ms sk lg sk' lg'. (1, eids) \<in> set mixed_pid_eids \<and>
      properties mixed_model 1 = Some p \<and>
      prop_masses mixed_model p eids sk lg = (Inr (ms, sk'), lg') \<and> ms \<noteq> [])"
proof -
  have r: "get_area_breakdown mixed_model mixed_pid_eids True = Inr [(1, 2)]"
    "fst (get_volume_breakdown mixed_model mixed_pid_eids) = Inr [(1, 2), (3, 5)]"
    "fst (get_mass_breakdown mixed_model mixed_pid_eids True) = Inr ([(1, 2), (3, 15)], [])"
    by (simp_all add: mixed_model_breakdowns)
  have p: "properties mixed_model 2 = Some bush_prop"
    "prop_type bush_prop \<in> set skip_props"
    "prop_type bush_prop \<in> set no_volume"
    "prop_type bush_prop \<in> set properties_to_skip"
    by (simp_all add: mixed_model_def bush_prop_def skip_props_def no_volume_def
        properties_to_skip_def)
  have k: "map_of [(1 :: int, 2 :: real)] 1 \<noteq> None"
    "map_of [(1 :: int, 2 :: real), (3, 5)] 1 \<noteq> None"
    "map_of [(1 :: int, 2 :: real), (3, 15)] 1 \<noteq> None"
    by simp_all
  from breakdown_keys_contributed [of mixed_model mixed_pid_eids True "[(1, 2)]" 2 bush_prop
      "[(1, 2), (3, 5)]" True "[(1, 2), (3, 15)]" "[]"] r p
  have absent: "map_of [(1 :: int, 2 :: real)] 2 = None \<and>
     map_of [(1 :: int, 2 :: real), (3, 5)] 2 = None \<and>
     map_of [(1 :: int, 2 :: real), (3, 15)] 2 = None"
    by blast
  from breakdown_keys_contributed [of mixed_model mixed_pid_eids True "[(1, 2)]" 1 bush_prop
      "[(1, 2), (3, 5)]" True "[(1, 2), (3, 15)]" "[]"] r k
  have present: "(\<exists>eids p areas. (1, eids) \<in> set mixed_pid_eids \<and> properties mixed_model 1 = Some p \<and>
      prop_areas mixed_model True p eids = Inr areas \<and> areas \<noteq> []) \<and>
   (\<exists>eids p volumes sk lg sk' lg'. (1, eids) \<in> set mixed_pid_eids \<and>
      properties mixed_model 1 = Some p \<and>
      prop_volumes mixed_model p eids sk lg = (Inr (volumes, sk'), lg') \<and> volumes \<noteq> []) \<and>
   (\<exists>eids p ms sk lg sk' lg'. (1, eids) \<in> set mixed_pid_eids \<and>
      properties mixed_model 1 = Some p \<and>
      prop_masses mixed_model p eids sk lg = (Inr (ms, sk'), lg') \<and> ms \<noteq> [])"
    by blast
  from absent present show ?thesis by blast
qed

text \<open>
  C3. Let a property of the model have a type that is in none of the lists of the three
  breakdowns. Whenever the selection contains its id, each of \<^verbatim>\<open>get_area_breakdown\<close>,
  \<^verbatim>\<open>get_volume_breakdown\<close> and \<^verbatim>\<open>get_mass_breakdown\<close> raises and returns no mapping; and
  when the items of the selection before it are processed without an exception, the
  exception raised is \<^verbatim>\<open>NotImplementedError\<close> carrying that property.
\<close>

theorem unclassified_property_raises:
  assumes "properties model pid = Some prop"
    and "prop_type prop \<notin> set shell_props"
    and "prop_type prop \<notin> set line_props"
    and "prop_type prop \<notin> set solid_props"
    and "prop_type prop \<notin> set skip_props"
    and "prop_type prop \<notin> set no_volume"
    and "prop_type prop \<notin> set properties_to_skip"
  shows "((pid, eids) \<in> set pid_eids \<longrightarrow>
            (\<exists>e. get_area_breakdown model pid_eids sba = Inl e) \<and>
            (\<exists>e. fst (get_volume_breakdown model pid_eids) = Inl e) \<and>
            (\<exists>e. fst (get_mass_breakdown model pid_eids stop) = Inl e)) \<and>
         (get_area_breakdown model pre sba = Inr d \<longrightarrow>
            get_area_breakdown model (pre @ (pid, eids) # post) sba =
              Inl (NotImplementedError prop)) \<and>
         (fst (get_volume_breakdown model pre) = Inr dv \<longrightarrow>
            fst (get_volume_breakdown model (pre @ (pid, eids) # post)) =
              Inl (NotImplementedError prop)) \<and>
         (fst (get_mass_breakdown model pre False) = Inr (dm, mtm) \<longrightarrow>
            fst (get_mass_breakdown model (pre @ (pid, eids) # post) stop) =
              Inl (NotImplementedError prop))"
proof -
  note a = prop_areas_unclassified [OF assms(2,3,5)]
  note v = prop_volumes_unclassified [OF assms(2,3,4,6)]
  note m = prop_masses_unclassified [OF assms(2,3,4,7)]
  have 1: "(\<exists>e. get_area_breakdown model pid_eids sba = Inl e) \<and>
           (\<exists>e. fst (get_volume_breakdown model pid_eids) = Inl e) \<and>
           (\<exists>e. fst (get_mass_breakdown model pid_eids stop) = Inl e)"
    if "(pid, eids) \<in> set pid_eids"
    using area_breakdown_raises [OF that assms(1) a]
      volume_breakdown_raises [OF that assms(1) v]
      mass_breakdown_raises [OF that assms(1) m]
    by simp
  have 2: "get_area_breakdown model (pre @ (pid, eids) # post) sba =
             Inl (NotImplementedError prop)"
    if "get_area_breakdown model pre sba = Inr d"
    using area_breakdown_reached [OF that assms(1) a] .
  have 3: "fst (get_volume_breakdown model (pre @ (pid, eids) # post)) =
             Inl (NotImplementedError prop)"
    if "fst (get_volume_breakdown model pre) = Inr dv"
    by (rule volume_breakdown_reached [OF that assms(1)]) (simp add: v)
  have 4: "fst (get_mass_breakdown model (pre @ (pid, eids) # post) stop) =
             Inl (NotImplementedError prop)"
    if "fst (get_mass_breakdown model pre False) = Inr (dm, mtm)"
    by (rule mass_breakdown_reached [OF that assms(1)]) (simp add: m)
  from 1 2 3 4 show ?thesis by blast
qed

theorem unclassified_property_raises_witness:
  "(\<exists>e. get_area_breakdown foo_model [(1, [1]), (9, [2])] True = Inl e) \<and>
   (\<exists>e. fst (get_volume_breakdown foo_model [(1, [1]), (9, [2])]) = Inl e) \<and>
   (\<exists>e. fst (get_mass_breakdown foo_model [(1, [1]), (9, [2])] True) = Inl e) \<and>
   get_area_breakdown foo_model [(1, [1]), (9, [2])] True = Inl (NotImplementedError foo_prop) \<and>
   fst (get_volume_breakdown foo_model [(1, [1]), (9, [2])]) = Inl (NotImplementedError foo_prop) \<and>
   fst (get_mass_breakdown foo_model [(1, [1]), (9, [2])] True) = Inl (NotImplementedError foo_prop)"
proof -
  have h: "properties foo_model 9 = Some foo_prop"
    "prop_type foo_prop \<notin> set shell_props"
    "prop_type foo_prop \<notin> set line_props"
    "prop_type foo_prop \<notin> set solid_props"
    "prop_type foo_prop \<notin> set skip_props"
    "prop_type foo_prop \<notin> set no_volume"
    "prop_type foo_prop \<notin> set properties_to_skip"
    by (simp_all add: foo_model_def foo_prop_def shell_props_def line_props_def
        solid_props_def skip_props_def no_volume_def properties_to_skip_def)
  have i: "(9 :: int, [2 :: int]) \<in> set ([(1, [1])] @ (9, [2]) # [])" by simp
  from unclassified_property_raises [OF h, where eids = "[2]"
      and pid_eids = "[(1, [1])] @ (9, [2]) # []" and sba = True and stop = True
      and pre = "[(1, [1])]" and d = "[(1, 2)]" and post = "[]" and dv = "[(1, 2)]"
      and dm = "[(1, 2)]" and mtm = "[]"] i foo_model_pre(1) [of True] foo_model_pre(2,3)
  show ?thesis by simp
qed

text \<open>
  C4. Let a solid-like property (PSOLID, PCOMPS, PLSOLID) have elements that all exist
  and of which those of type CTETRA, CPENTA or CHEXA have a \<^verbatim>\<open>Volume()\<close>. Then
  processing it raises nothing in \<^verbatim>\<open>get_volume_breakdown\<close> and, when the property has a
  density, in \<^verbatim>\<open>get_mass_breakdown\<close>; the summands are the volumes (the density
  times the volumes) of the elements of these three types only, so an element of another
  type adds nothing to the reported sum; and in every call each entry written to the log
  is written once, that is at most once for each pair of element type and property type.
\<close>

theorem solid_skip_and_log_once:
  assumes "properties model pid = Some prop"
    and "prop_type prop \<in> set solid_props"
    and "map (elements model) eids = map Some elems"
    and "map elem_Volume (filter (\<lambda>e. elem_type e \<in> set solid_elems) elems) = map Some vols"
  shows "(\<exists>sk' lg'. prop_volumes model prop eids sk lg = (Inr (vols, sk'), lg')) \<and>
         (prop_Rho prop = Some rho \<longrightarrow>
            (\<exists>sk' lg'. prop_masses model prop eids sk lg =
               (Inr (map (\<lambda>v. rho * v) vols, sk'), lg'))) \<and>
         ((pid, eids) \<in> set pid_eids \<longrightarrow> distinct (map fst pid_eids) \<longrightarrow>
            (fst (get_volume_breakdown model pid_eids) = Inr pids_to_volume \<longrightarrow>
               map_of pids_to_volume pid =
                 (if vols = [] then None else Some (sum_list vols))) \<and>
            (prop_Rho prop = Some rho \<longrightarrow>
             fst (get_mass_breakdown model pid_eids stop) = Inr (pids_to_mass, mtm) \<longrightarrow>
               map_of pids_to_mass pid =
                 (if vols = [] then None else Some (\<Sum>v\<leftarrow>vols. rho * v)))) \<and>
         distinct (snd (get_volume_breakdown model pid_eids)) \<and>
         distinct (snd (get_mass_breakdown model pid_eids stop))"
proof -
  note pv = prop_volumes_solid [OF assms(2,3,4)]
  have pm: "\<exists>sk' lg'. prop_masses model prop eids sk lg =
               (Inr (map (\<lambda>v. rho * v) vols, sk'), lg')"
    if "prop_Rho prop = Some rho" for sk lg
    using prop_masses_solid [OF assms(2) that assms(3,4)] .
  have vol: "map_of pids_to_volume pid = (if vols = [] then None else Some (sum_list vols))"
    if i: "(pid, eids) \<in> set pid_eids" and d: "distinct (map fst pid_eids)"
      and r: "fst (get_volume_breakdown model pid_eids) = Inr pids_to_volume"
  proof (cases "vols = []")
    case True
    have "map_of pids_to_volume pid = None"
    proof (rule ccontr)
      assume "map_of pids_to_volume pid \<noteq> None"
      from volume_breakdown_origin [OF r this] assms(1) obtain eids' vs sk0 lg0 sk1 lg1 where
        o: "(pid, eids') \<in> set pid_eids"
        "prop_volumes model prop eids' sk0 lg0 = (Inr (vs, sk1), lg1)" "vs \<noteq> []"
        by auto
      from distinct_keys_value [OF d i o(1)] have "eids' = eids" by simp
      with o(2,3) pv [of sk0 lg0] True show False by auto
    qed
    with True show ?thesis by simp
  next
    case False
    from volume_breakdown_at [OF r i d assms(1)] obtain vs sk0 lg0 sk1 lg1 where
      a: "prop_volumes model prop eids sk0 lg0 = (Inr (vs, sk1), lg1)"
      "vs \<noteq> [] \<longrightarrow> map_of pids_to_volume pid = Some (py_sum vs)"
      by blast
    from a(1) pv [of sk0 lg0] have "vs = vols" by auto
    with a(2) False show ?thesis by (simp add: py_sum_eq)
  qed
  have mass: "map_of pids_to_mass pid =
      (if vols = [] then None else Some (\<Sum>v\<leftarrow>vols. rho * v))"
    if i: "(pid, eids) \<in> set pid_eids" and d: "distinct (map fst pid_eids)"
      and rho: "prop_Rho prop = Some rho"
      and r: "fst (get_mass_breakdown model pid_eids stop) = Inr (pids_to_mass, mtm)"
  proof (cases "vols = []")
    case True
    have "map_of pids_to_mass pid = None"
    proof (rule ccontr)
      assume "map_of pids_to_mass pid \<noteq> None"
      from mass_breakdown_origin [OF r this] assms(1) obtain eids' vs sk0 lg0 sk1 lg1 where
        o: "(pid, eids') \<in> set pid_eids"
        "prop_masses model prop eids' sk0 lg0 = (Inr (vs, sk1), lg1)" "vs \<noteq> []"
        by auto
      from distinct_keys_value [OF d i o(1)] have "eids' = eids" by simp
      with o(2,3) pm [OF rho, of sk0 lg0] True show False by auto
    qed
    with True show ?thesis by simp
  next
    case False
    from mass_breakdown_at [OF r i d assms(1)] obtain vs sk0 lg0 sk1 lg1 where
      a: "prop_masses model prop eids sk0 lg0 = (Inr (vs, sk1), lg1)"
      "vs \<noteq> [] \<longrightarrow> map_of pids_to_mass pid = Some (py_sum vs)"
      by blast
    from a(1) pm [OF rho, of sk0 lg0] have "vs = map (\<lambda>v. rho * v) vols" by auto
    with a(2) False show ?thesis by (simp add: py_sum_eq)
  qed
  from pv [of sk lg] pm [of sk lg] vol mass
    volume_breakdown_log_distinct [of model pid_eids]
    mass_breakdown_log_distinct [of model pid_eids stop]
  show ?thesis by blast
qed

theorem solid_skip_and_log_once_witness:
  "(\<exists>sk' lg'. prop_volumes mixed_model solid_prop [3, 4, 5] {} [] = (Inr ([5], sk'), lg')) \<and>
   (\<exists>sk' lg'. prop_masses mixed_model solid_prop [3, 4, 5] {} [] =
      (Inr (map (\<lambda>v. 3 * v) [5], sk'), lg')) \<and>
   map_of [(1 :: int, 2 :: real), (3, 5)] 3 = (if [5 :: real] = [] then None else Some (sum_list [5])) \<and>
   map_of [(1 :: int, 2 :: real), (3, 15)] 3 =
     (if [5 :: real] = [] then None else Some (\<Sum>v\<leftarrow>[5]. 3 * v)) \<and>
   distinct (snd (get_volume_breakdown mixed_model mixed_pid_eids)) \<and>
   distinct (snd (get_mass_breakdown mixed_model mixed_pid_eids True)) \<and>
   snd (get_volume_breakdown mixed_model mixed_pid_eids) =
     [SkippingVolume (''CPYRAM'', ''PSOLID'')] \<and>
   snd (get_mass_breakdown mixed_model mixed_pid_eids True) =
     [SkippingMass (''CPYRAM'', ''PSOLID'')]"
proof -
  have h: "properties mixed_model 3 = Some solid_prop"
    "prop_type solid_prop \<in> set solid_props"
    "map (elements mixed_model) [3, 4, 5] =
       map Some [solid_elem ''CTETRA'' (Some 5), solid_elem ''CPYRAM'' None,
                 solid_elem ''CPYRAM'' None]"
    "map elem_Volume (filter (\<lambda>e. elem_type e \<in> set solid_elems)
       [solid_elem ''CTETRA'' (Some 5), solid_elem ''CPYRAM'' None,
        solid_elem ''CPYRAM'' None]) = map Some [5]"
    by (simp_all add: mixed_model_def solid_prop_def solid_elem_def solid_props_def
        solid_elems_def)
  have g: "prop_Rho solid_prop = Some 3" "(3, [3, 4, 5]) \<in> set mixed_pid_eids"
    "distinct (map fst mixed_pid_eids)"
    by (simp_all add: solid_prop_def mixed_pid_eids_def)
  have r: "fst (get_volume_breakdown mixed_model mixed_pid_eids) = Inr [(1, 2), (3, 5)]"
    "fst (get_mass_breakdown mixed_model mixed_pid_eids True) = Inr ([(1, 2), (3, 15)], [])"
    "snd (get_volume_breakdown mixed_model mixed_pid_eids) =
       [SkippingVolume (''CPYRAM'', ''PSOLID'')]"
    "snd (get_mass_breakdown mixed_model mixed_pid_eids True) =
       [SkippingMass (''CPYRAM'', ''PSOLID'')]"
    by (simp_all add: mixed_model_breakdowns)
  from solid_skip_and_log_once [OF h, where sk = "{}" and lg = "[]" and rho = 3
      and pid_eids = mixed_pid_eids and pids_to_volume = "[(1, 2), (3, 5)]" and stop = True
      and pids_to_mass = "[(1, 2), (3, 15)]" and mtm = "[]"] g r(1,2)
  have "(\<exists>sk' lg'. prop_volumes mixed_model solid_prop [3, 4, 5] {} [] = (Inr ([5], sk'), lg')) \<and>
   (\<exists>sk' lg'. prop_masses mixed_model solid_prop [3, 4, 5] {} [] =
      (Inr (map (\<lambda>v. 3 * v) [5], sk'), lg')) \<and>
   map_of [(1 :: int, 2 :: real), (3, 5)] 3 = (if [5 :: real] = [] then None else Some (sum_list [5])) \<and>
   map_of [(1 :: int, 2 :: real), (3, 15)] 3 =
     (if [5 :: real] = [] then None else Some (\<Sum>v\<leftarrow>[5]. 3 * v)) \<and>
   distinct (snd (get_volume_breakdown mixed_model mixed_pid_eids)) \<and>
   distinct (snd (get_mass_breakdown mixed_model mixed_pid_eids True))"
    by blast
  with r(3,4) show ?thesis by blast
qed

text \<open>
  C5. On a model with no point masses in which every property of the selection gives an
  empty list of summands (and raises nothing), \<^verbatim>\<open>get_mass_breakdown\<close> with
  \<^verbatim>\<open>stop_if_no_eids=True\<close> raises \<^verbatim>\<open>RuntimeError('No elements with mass were found')\<close>, and
  with \<^verbatim>\<open>stop_if_no_eids=False\<close> it returns two empty mappings.
\<close>

theorem no_mass_found:
  assumes "masses model = []"
    and "\<forall>(pid, eids)\<in>set pid_eids. \<exists>p. properties model pid = Some p \<and>
           (\<forall>sk lg. \<exists>sk' lg'. prop_masses model p eids sk lg = (Inr ([], sk'), lg'))"
  shows "fst (get_mass_breakdown model pid_eids True) = Inl (RuntimeError no_mass_msg) \<and>
         fst (get_mass_breakdown model pid_eids False) = Inr ([], [])"
proof -
  from mass_loop_no_summands [OF assms(2), of "[]" "{}" "[]"] obtain sk' lg' where
    "for_each_log (mass_prop_step model) pid_eids ([], {}) [] = (Inr ([], sk'), lg')"
    by blast
  with assms(1) show ?thesis by (simp add: get_mass_breakdown_def)
qed

theorem no_mass_found_witness:
  "fst (get_mass_breakdown mixed_model no_mass_pid_eids True) = Inl (RuntimeError no_mass_msg) \<and>
   fst (get_mass_breakdown mixed_model no_mass_pid_eids False) = Inr ([], [])"
proof -
  have m: "masses mixed_model = []" by (simp add: mixed_model_def)
  have "\<forall>(pid, eids)\<in>set no_mass_pid_eids. \<exists>p. properties mixed_model pid = Some p \<and>
           (\<forall>sk lg. \<exists>sk' lg'. prop_masses mixed_model p eids sk lg = (Inr ([], sk'), lg'))"
    by (simp add: no_mass_pid_eids_def mixed_model_def prop_masses_def mass_solid_step_def
        shell_prop_def bush_prop_def solid_prop_def solid_elem_def
        line_props_def solid_props_def solid_elems_def properties_to_skip_def Let_def)
  from no_mass_found [OF m this] show ?thesis .
qed

text \<open>
  C9. \<^verbatim>\<open>get_mass_breakdown\<close> raises the \<^verbatim>\<open>RuntimeError\<close> only with
  \<^verbatim>\<open>stop_if_no_eids=True\<close> and when the same call with \<^verbatim>\<open>stop_if_no_eids=False\<close> returns
  two empty mappings. When the model has a point mass, whatever its \<^verbatim>\<open>Mass()\<close>, the
  call never raises that error, for any selection and either value of the flag, and a
  returned point-mass mapping is not empty and is the one built by the loop over all
  masses of the model, which does not read the selection.
\<close>

theorem no_mass_error_only_when_empty:
  "(fst (get_mass_breakdown model pid_eids stop) = Inl (RuntimeError msg) \<longrightarrow>
      stop \<and> msg = no_mass_msg \<and> masses model = [] \<and>
      fst (get_mass_breakdown model pid_eids False) = Inr ([], [])) \<and>
   (masses model \<noteq> [] \<longrightarrow>
      fst (get_mass_breakdown model pid_eids stop) \<noteq> Inl (RuntimeError no_mass_msg) \<and>
      (fst (get_mass_breakdown model pid_eids stop) = Inr (pids_to_mass, mtm) \<longrightarrow>
         mtm \<noteq> [] \<and> for_each mass_type_step (masses model) [] = Inr mtm))"
proof -
  have 1: "stop \<and> emsg = no_mass_msg \<and> masses model = [] \<and>
      fst (get_mass_breakdown model pid_eids False) = Inr ([], [])"
    if r: "fst (get_mass_breakdown model pid_eids stop) = Inl (RuntimeError emsg)" for emsg
  proof (cases "for_each mass_type_step (masses model) []")
    case (Inl e)
    from mass_loops_errors(4) [OF Inl] have "e = AttributeError" .
    with r Inl show ?thesis by (simp add: get_mass_breakdown_def)
  next
    case (Inr m)
    obtain r1 lg1 where loop:
      "for_each_log (mass_prop_step model) pid_eids ([], {}) [] = (r1, lg1)"
      by (cases "for_each_log (mass_prop_step model) pid_eids ([], {}) []")
    show ?thesis
    proof (cases r1)
      case (Inl e)
      from for_each_log_error [OF loop [unfolded Inl]] mass_prop_step_error
      have "e \<noteq> RuntimeError emsg" by blast
      with r Inr loop Inl show ?thesis by (simp add: get_mass_breakdown_def)
    next
      case inr: (Inr s1)
      obtain d sk where s1: "s1 = (d, sk)" by (cases s1)
      from r Inr loop inr s1 have c: "stop" "m = []" "d = []" "emsg = no_mass_msg"
        by (auto simp: get_mass_breakdown_def split: if_splits)
      have "masses model = []"
      proof (rule ccontr)
        assume "masses model \<noteq> []"
        with for_each_mass_type_nonempty [OF Inr] c(2) show False by simp
      qed
      with c Inr loop inr s1 show ?thesis by (simp add: get_mass_breakdown_def)
    qed
  qed
  have 2: "fst (get_mass_breakdown model pid_eids stop) \<noteq> Inl (RuntimeError no_mass_msg)"
    if "masses model \<noteq> []"
  proof
    assume "fst (get_mass_breakdown model pid_eids stop) = Inl (RuntimeError no_mass_msg)"
    from 1 [OF this] that show False by simp
  qed
  have 3: "mtm \<noteq> [] \<and> for_each mass_type_step (masses model) [] = Inr mtm"
    if ne: "masses model \<noteq> []"
      and r: "fst (get_mass_breakdown model pid_eids stop) = Inr (pids_to_mass, mtm)"
  proof -
    from mass_breakdown_loop [OF r] have l: "for_each mass_type_step (masses model) [] = Inr mtm"
      by simp
    from for_each_mass_type_nonempty [OF l] ne show ?thesis using l by simp
  qed
  from 1 2 3 show ?thesis by blast
qed

theorem no_mass_error_only_when_empty_witness:
  "masses mixed_model = [] \<and>
   fst (get_mass_breakdown mixed_model no_mass_pid_eids False) = Inr ([], []) \<and>
   fst (get_mass_breakdown point_mass_model [(2, [2])] True) \<noteq> Inl (RuntimeError no_mass_msg) \<and>
   [(''CONM2'', 0 :: real)] \<noteq> [] \<and>
   for_each mass_type_step (masses point_mass_model) [] = Inr [(''CONM2'', 0)]"
proof -
  have m: "masses point_mass_model \<noteq> []" by (simp add: point_mass_model_def)
  from no_mass_error_only_when_empty [where model = mixed_model
      and pid_eids = no_mass_pid_eids and stop = True and msg = no_mass_msg]
    no_mass_example(1)
  have a: "masses mixed_model = [] \<and>
    fst (get_mass_breakdown mixed_model no_mass_pid_eids False) = Inr ([], [])"
    by blast
  from no_mass_error_only_when_empty [where model = point_mass_model
      and pid_eids = "[(2, [2])]" and stop = True and pids_to_mass = "[]"
      and mtm = "[(''CONM2'', 0)]"]
    m no_mass_example(3)
  have b: "fst (get_mass_breakdown point_mass_model [(2, [2])] True) \<noteq>
      Inl (RuntimeError no_mass_msg) \<and>
    [(''CONM2'', 0 :: real)] \<noteq> [] \<and>
    for_each mass_type_step (masses point_mass_model) [] = Inr [(''CONM2'', 0)]"
    by blast
  from a b show ?thesis by blast
qed

end
